theory Spec2Isabelle
  imports Main "HOL-Library.AList"
begin

section \<open>Rate limiter (src/src/rate-limiter.ts)\<close>

text \<open>
  Time stamps, counters and configured values are JavaScript numbers that hold
  integers, modelled as \<open>int\<close> (exact below \<open>2^53\<close>). \<open>Date.now()\<close> is an argument \<open>now\<close>
  of each operation. The block duration is the one computation that can leave the
  integers: \<open>Math.pow(2, e)\<close> is \<open>Infinity\<close> from \<open>e = 1024\<close>, and a product with it is
  \<open>Infinity\<close>, \<open>-Infinity\<close> or \<open>NaN\<close>. So the block duration, \<open>blockExpires\<close> and
  \<open>retryAfter\<close> are values of the type \<open>number\<close>. The records of the two maps are
  mutated in place by the source; the model writes the final record back into the map.
\<close>

datatype number = Finite int | Infinity | NegInfinity | NaN

record RateLimitRecord =
  count :: int
  windowStart :: int
  blocked :: bool
  blockExpires :: number
  violations :: int

record FailedLookupRecord =
  fl_count :: int
  fl_windowStart :: int

record RateLimiter =
  requests :: "string \<rightharpoonup> RateLimitRecord"
  failedLookups :: "string \<rightharpoonup> FailedLookupRecord"
  windowMs :: int
  maxRequests :: int
  maxFailedLookups :: int
  failedLookupWindowMs :: int
  baseBlockDurationMs :: int

record RateLimiterOptions =
  opt_windowMs :: "int option"
  opt_maxRequests :: "int option"
  opt_maxFailedLookups :: "int option"
  opt_failedLookupWindowMs :: "int option"
  opt_baseBlockDurationMs :: "int option"

record CheckResult =
  allowed :: bool
  retryAfter :: "number option"

text \<open>The constructor: \<open>options?.x ?? default\<close>.\<close>

definition newRateLimiter :: "RateLimiterOptions option \<Rightarrow> RateLimiter" where
  "newRateLimiter options =
     \<lparr> requests = Map.empty,
       failedLookups = Map.empty,
       windowMs = (case Option.bind options opt_windowMs of Some v \<Rightarrow> v | None \<Rightarrow> 60000),
       maxRequests = (case Option.bind options opt_maxRequests of Some v \<Rightarrow> v | None \<Rightarrow> 100),
       maxFailedLookups =
         (case Option.bind options opt_maxFailedLookups of Some v \<Rightarrow> v | None \<Rightarrow> 10),
       failedLookupWindowMs =
         (case Option.bind options opt_failedLookupWindowMs of Some v \<Rightarrow> v | None \<Rightarrow> 60000),
       baseBlockDurationMs =
         (case Option.bind options opt_baseBlockDurationMs of Some v \<Rightarrow> v | None \<Rightarrow> 60000) \<rparr>"

text \<open>
  \<open>Math.pow(2, e)\<close> for an exponent \<open>e \<ge> 0\<close>: the power up to \<open>2^1023\<close>, \<open>Infinity\<close>
  beyond. The exponent is \<open>violations - 1\<close> after an increment, or \<open>violations\<close> after
  adding 2, so it is non-negative whenever the stored violation count is (lemmas
  \<open>checkRequest_violations_nonneg\<close> and \<open>recordFailedLookup_violations_nonneg\<close>); a
  negative exponent, where JavaScript yields a fraction, is outside the model.
\<close>

definition pow2 :: "int \<Rightarrow> number" where
  "pow2 e = (if e < 1024 then Finite (2 ^ nat e) else Infinity)"

text \<open>
  \<open>a * x\<close> for an integer \<open>a\<close>: a product of magnitude \<open>2^1024\<close> or more overflows to an
  infinity, and \<open>0 * Infinity\<close> is \<open>NaN\<close>.
\<close>

fun timesNumber :: "int \<Rightarrow> number \<Rightarrow> number" where
  "timesNumber a (Finite b) =
     (if 2 ^ 1024 \<le> \<bar>a * b\<bar> then (if 0 < a * b then Infinity else NegInfinity)
      else Finite (a * b))"
| "timesNumber a Infinity = (if 0 < a then Infinity else if a < 0 then NegInfinity else NaN)"
| "timesNumber a NegInfinity = (if 0 < a then NegInfinity else if a < 0 then Infinity else NaN)"
| "timesNumber a NaN = NaN"

text \<open>\<open>Math.min(x, k)\<close>, \<open>now + x\<close>, \<open>x - now\<close> and \<open>now < x\<close> for integers \<open>k\<close> and \<open>now\<close>.\<close>

fun minNumber :: "number \<Rightarrow> int \<Rightarrow> number" where
  "minNumber (Finite x) k = Finite (min x k)"
| "minNumber Infinity k = Finite k"
| "minNumber NegInfinity k = NegInfinity"
| "minNumber NaN k = NaN"

fun plusNumber :: "int \<Rightarrow> number \<Rightarrow> number" where
  "plusNumber now (Finite x) = Finite (now + x)"
| "plusNumber now x = x"

fun minusNumber :: "number \<Rightarrow> int \<Rightarrow> number" where
  "minusNumber (Finite x) now = Finite (x - now)"
| "minusNumber x now = x"

fun lessNumber :: "int \<Rightarrow> number \<Rightarrow> bool" where
  "lessNumber now (Finite x) = (now < x)"
| "lessNumber now Infinity = True"
| "lessNumber now NegInfinity = False"
| "lessNumber now NaN = False"

text \<open>\<open>Math.ceil(x / 1000)\<close>.\<close>

fun ceilSeconds :: "number \<Rightarrow> number" where
  "ceilSeconds (Finite x) = Finite (- ((- x) div 1000))"
| "ceilSeconds x = x"

definition checkRequest :: "string \<Rightarrow> int \<Rightarrow> RateLimiter \<Rightarrow> CheckResult \<times> RateLimiter" where
  "checkRequest ip now rl =
     (let rec0 = requests rl ip in
      if (case rec0 of Some r \<Rightarrow> blocked r \<and> lessNumber now (blockExpires r) | None \<Rightarrow> False)
      then
        (case rec0 of
           Some r \<Rightarrow>
             (\<lparr> allowed = False,
                retryAfter = Some (ceilSeconds (minusNumber (blockExpires r) now)) \<rparr>, rl)
         | None \<Rightarrow> (\<lparr> allowed = True, retryAfter = None \<rparr>, rl))
      else
        let r1 = (case rec0 of
                    Some r \<Rightarrow>
                      if blocked r then r\<lparr> blocked := False, count := 0, windowStart := now \<rparr>
                      else r
                  | None \<Rightarrow>
                      \<lparr> count = 0, windowStart = now, blocked = False, blockExpires = Finite 0,
                        violations = 0 \<rparr>);
            r2 = (if now - windowStart r1 > windowMs rl then
                    r1\<lparr> count := 0, windowStart := now,
                        violations := (if violations r1 > 0 then max 0 (violations r1 - 1)
                                       else violations r1) \<rparr>
                  else r1);
            r3 = r2\<lparr> count := count r2 + 1 \<rparr>
        in
          if count r3 > maxRequests rl then
            let r4 = r3\<lparr> violations := violations r3 + 1, blocked := True \<rparr>;
                blockDuration =
                  minNumber (timesNumber (baseBlockDurationMs rl) (pow2 (violations r4 - 1)))
                    3600000;
                r5 = r4\<lparr> blockExpires := plusNumber now blockDuration \<rparr>
            in (\<lparr> allowed = False, retryAfter = Some (ceilSeconds blockDuration) \<rparr>,
                rl\<lparr> requests := (requests rl)(ip \<mapsto> r5) \<rparr>)
          else
            (\<lparr> allowed = True, retryAfter = None \<rparr>,
             rl\<lparr> requests := (requests rl)(ip \<mapsto> r3) \<rparr>))"

definition recordFailedLookup :: "string \<Rightarrow> int \<Rightarrow> RateLimiter \<Rightarrow> bool \<times> RateLimiter" where
  "recordFailedLookup ip now rl =
     (let f0 = (case failedLookups rl ip of
                  Some f \<Rightarrow> f
                | None \<Rightarrow> \<lparr> fl_count = 0, fl_windowStart = now \<rparr>);
          f1 = (if now - fl_windowStart f0 > failedLookupWindowMs rl then
                  f0\<lparr> fl_count := 0, fl_windowStart := now \<rparr>
                else f0);
          f2 = f1\<lparr> fl_count := fl_count f1 + 1 \<rparr>
      in
        if fl_count f2 \<ge> maxFailedLookups rl then
          let q0 = (case requests rl ip of
                      Some r \<Rightarrow> r
                    | None \<Rightarrow>
                        \<lparr> count = 0, windowStart = now, blocked = False, blockExpires = Finite 0,
                          violations = 0 \<rparr>);
              q1 = q0\<lparr> violations := violations q0 + 2, blocked := True \<rparr>;
              blockDuration =
                minNumber (timesNumber (baseBlockDurationMs rl) (pow2 (violations q1))) 3600000;
              q2 = q1\<lparr> blockExpires := plusNumber now blockDuration \<rparr>;
              f3 = f2\<lparr> fl_count := 0, fl_windowStart := now \<rparr>
          in (True, rl\<lparr> requests := (requests rl)(ip \<mapsto> q2),
                         failedLookups := (failedLookups rl)(ip \<mapsto> f3) \<rparr>)
        else
          (False, rl\<lparr> failedLookups := (failedLookups rl)(ip \<mapsto> f2) \<rparr>))"

text \<open>
  \<open>cleanup\<close> deletes entries while iterating over the two maps; the order of the
  iteration has no effect on the result.
\<close>

definition cleanup :: "int \<Rightarrow> RateLimiter \<Rightarrow> RateLimiter" where
  "cleanup now rl =
     (let maxAge = max (windowMs rl) (failedLookupWindowMs rl) * 10 in
      rl\<lparr> requests :=
            (\<lambda>ip. case requests rl ip of
                     Some r \<Rightarrow>
                       if \<not> blocked r \<and> now - windowStart r > maxAge \<and> violations r = 0
                       then None else Some r
                   | None \<Rightarrow> None),
          failedLookups :=
            (\<lambda>ip. case failedLookups rl ip of
                     Some f \<Rightarrow> if now - fl_windowStart f > maxAge then None else Some f
                   | None \<Rightarrow> None) \<rparr>)"

text \<open>
  A run of \<open>checkRequest\<close> calls for one address at the given times, collecting the
  results in call order.
\<close>

fun checkRequests :: "string \<Rightarrow> int list \<Rightarrow> RateLimiter \<Rightarrow> CheckResult list \<times> RateLimiter" where
  "checkRequests ip [] rl = ([], rl)"
| "checkRequests ip (t # ts) rl =
     (let (res, rl1) = checkRequest ip t rl;
          (ress, rl2) = checkRequests ip ts rl1
      in (res # ress, rl2))"

section \<open>Signaling core (src/src/signaling-core.ts)\<close>

subsection \<open>Data model\<close>

text \<open>
  The connection handle type \<open>WS\<close> of the source is the type parameter \<open>'ws\<close>. Fields
  of different interfaces that share a name carry a prefix. The payload \<open>data\<close> is
  opaque to the core and kept as text.
\<close>

datatype Urls = Url string | UrlList "string list"

record IceServerConfig =
  urls :: Urls
  username :: "string option"
  credential :: "string option"

record SignalingMessage =
  msg_type :: string
  remoteId :: "string option"
  sessionId :: "string option"
  data :: "string option"
  error :: "string option"
  iceServers :: "IceServerConfig list option"

record 'ws ServerData =
  sd_ws :: 'ws
  sd_iceServers :: "IceServerConfig list option"

record 'ws ClientData =
  cd_ws :: 'ws
  cd_remoteId :: string

record 'ws PendingClient =
  pc_ws :: 'ws
  pc_remoteId :: string
  pc_timeout :: "nat option"

datatype ConnectionType = Server | Client

record ConnectionMetadata =
  md_type :: ConnectionType
  md_id :: string

text \<open>
  The calls of the \<open>send\<close> and \<open>close\<close> callbacks, in the order the core makes them.
  A sent object is a message with the fields it does not set absent, as
  \<open>JSON.stringify\<close> drops them. The \<open>log\<close> callback is not modelled.
\<close>

datatype 'ws effect = Send 'ws SignalingMessage | Close 'ws int string

text \<open>
  The closure passed to \<open>setTimeout\<close> by \<open>handleConnectRequest\<close> captures the session
  id, the normalised remote id and the \<open>serverData\<close> object, by reference.
\<close>

record Fallback =
  fb_sessionId :: string
  fb_remoteId :: string
  fb_serverData :: nat

text \<open>
  \<open>ServerData\<close> objects are shared between the \<open>servers\<close> map and the timer closures
  and are mutated in place by a refresh, so they live in a store: \<open>servers\<close> maps a
  remote id to an address, \<open>heap\<close> maps an address to the object, and \<open>nextRef\<close> is the
  address of the next object created. \<open>clients\<close> and \<open>pendingClients\<close> are iterated by
  \<open>handleDisconnect\<close>, so they are association lists in insertion order
  (\<open>AList.update\<close> keeps the position of an existing key and appends a new one, as
  \<open>Map.set\<close> does). \<open>timers\<close> holds the armed timeouts by handle.
\<close>

record 'ws SignalingCore =
  servers :: "string \<rightharpoonup> nat"
  heap :: "nat \<rightharpoonup> 'ws ServerData"
  nextRef :: nat
  clients :: "(string \<times> 'ws ClientData) list"
  pendingClients :: "(string \<times> 'ws PendingClient) list"
  wsMetadata :: "'ws \<rightharpoonup> ConnectionMetadata"
  wsClientIp :: "'ws \<rightharpoonup> string"
  rateLimiter :: RateLimiter
  timers :: "nat \<rightharpoonup> Fallback"
  nextTimer :: nat

definition newSignalingCore :: "RateLimiter \<Rightarrow> 'ws SignalingCore" where
  "newSignalingCore rl =
     \<lparr> servers = Map.empty, heap = Map.empty, nextRef = 0, clients = [], pendingClients = [],
       wsMetadata = Map.empty, wsClientIp = Map.empty, rateLimiter = rl,
       timers = Map.empty, nextTimer = 1 \<rparr>"

subsection \<open>Helpers\<close>

definition chars :: string where
  "chars = ''ABCDEFGHIJKLMNOPQRSTUVWXYZabcdefghijklmnopqrstuvwxyz0123456789''"

definition charAt :: "string \<Rightarrow> nat \<Rightarrow> string" where
  "charAt s i = (if i < length s then [s ! i] else [])"

text \<open>
  \<open>generateSessionId\<close>: \<open>rnd i\<close> is the value of
  \<open>Math.floor(Math.random() * chars.length)\<close> in iteration \<open>i\<close> of the loop.
\<close>

function generateSessionId_loop :: "(nat \<Rightarrow> nat) \<Rightarrow> nat \<Rightarrow> string \<Rightarrow> string" where
  "generateSessionId_loop rnd i result =
     (if i < 16 then generateSessionId_loop rnd (i + 1) (result @ charAt chars (rnd i))
      else result)"
  by pat_completeness auto
termination
  by (relation "measure (\<lambda>(rnd, i, result). 16 - i)") auto

definition generateSessionId :: "(nat \<Rightarrow> nat) \<Rightarrow> string" where
  "generateSessionId rnd = generateSessionId_loop rnd 0 []"

text \<open>
  \<open>String.prototype.toUpperCase\<close> belongs to the runtime, not to the repository, and
  upper-cases every cased character of a string. The operations that normalise a remote
  id take it as their first argument \<open>toUpperCase\<close>, and every statement about them holds
  for whatever function it is.
\<close>

text \<open>The decimal text of a number inside a template string.\<close>

function showNat :: "nat \<Rightarrow> string" where
  "showNat n =
     (if n < 10 then [''0123456789'' ! n]
      else showNat (n div 10) @ [''0123456789'' ! (n mod 10)])"
  by pat_completeness auto
termination
  by (relation "measure (\<lambda>n. n)") auto

definition showInt :: "int \<Rightarrow> string" where
  "showInt i = (if i < 0 then ''-'' @ showNat (nat (- i)) else showNat (nat i))"

text \<open>A number inside a template string.\<close>

definition showNumber :: "number \<Rightarrow> string" where
  "showNumber x =
     (case x of
        Finite i \<Rightarrow> showInt i
      | Infinity \<Rightarrow> ''Infinity''
      | NegInfinity \<Rightarrow> ''-Infinity''
      | NaN \<Rightarrow> ''NaN'')"

definition emptyMessage :: "string \<Rightarrow> SignalingMessage" where
  "emptyMessage t =
     \<lparr> msg_type = t, remoteId = None, sessionId = None, data = None, error = None,
       iceServers = None \<rparr>"

definition sendError :: "'ws \<Rightarrow> string \<Rightarrow> 'ws effect" where
  "sendError ws e = Send ws ((emptyMessage ''error'')\<lparr> error := Some e \<rparr>)"

text \<open>\<open>this.servers.get(remoteId)\<close>: the object the map holds for the remote id.\<close>

definition getServer :: "'ws SignalingCore \<Rightarrow> string \<Rightarrow> 'ws ServerData option" where
  "getServer s rid = Option.bind (servers s rid) (heap s)"

subsection \<open>Operations\<close>

definition setClientIp :: "'ws \<Rightarrow> string \<Rightarrow> 'ws SignalingCore \<Rightarrow> 'ws SignalingCore" where
  "setClientIp ws ip s = s\<lparr> wsClientIp := (wsClientIp s)(ws \<mapsto> ip) \<rparr>"

definition checkRateLimit ::
  "'ws \<Rightarrow> int \<Rightarrow> 'ws SignalingCore \<Rightarrow> bool \<times> 'ws SignalingCore \<times> 'ws effect list" where
  "checkRateLimit ws now s =
     (case wsClientIp s ws of
        None \<Rightarrow> (True, s, [])
      | Some ip \<Rightarrow>
          if ip = [] then (True, s, [])
          else
            let (result, rl) = checkRequest ip now (rateLimiter s);
                s1 = s\<lparr> rateLimiter := rl \<rparr>
            in
              if \<not> allowed result then
                (False, s1,
                 [sendError ws
                    (''Rate limited. Try again in '' @
                     (case retryAfter result of
                        Some n \<Rightarrow> showNumber n
                      | None \<Rightarrow> ''undefined'') @
                     '' seconds.'')])
              else (True, s1, []))"

definition handleServerRegister ::
  "(string \<Rightarrow> string) \<Rightarrow> 'ws \<Rightarrow> SignalingMessage \<Rightarrow> 'ws SignalingCore \<Rightarrow> 'ws SignalingCore \<times> 'ws effect list" where
  "handleServerRegister toUpperCase ws message s =
     (case map_option toUpperCase (remoteId message) of
        None \<Rightarrow> (s, [sendError ws ''Remote ID required''])
      | Some rid \<Rightarrow>
          if rid = [] then (s, [sendError ws ''Remote ID required''])
          else if (case wsMetadata s ws of
                     Some md \<Rightarrow> md_type md = Server \<and> md_id md = rid
                   | None \<Rightarrow> False)
          then
            let s1 = (case servers s rid of
                        Some r \<Rightarrow>
                          (case heap s r of
                             Some existingServer \<Rightarrow>
                               (case iceServers message of
                                  Some ice \<Rightarrow>
                                    s\<lparr> heap := (heap s)(r \<mapsto>
                                         existingServer\<lparr> sd_iceServers := Some ice \<rparr>) \<rparr>
                                | None \<Rightarrow> s)
                           | None \<Rightarrow> s)
                      | None \<Rightarrow> s)
            in (s1, [Send ws ((emptyMessage ''registered'')\<lparr> remoteId := Some rid \<rparr>)])
          else
            let (s1, closes) =
                  (case getServer s rid of
                     Some existingServer \<Rightarrow>
                       if sd_ws existingServer \<noteq> ws then
                         (s\<lparr> servers := (servers s)(rid := None),
                             wsMetadata := (wsMetadata s)(sd_ws existingServer := None) \<rparr>,
                          [Close (sd_ws existingServer) 4000 ''Replaced by new connection''])
                       else (s, [])
                   | None \<Rightarrow> (s, []));
                r = nextRef s1;
                s2 = s1\<lparr> heap := (heap s1)(r \<mapsto>
                            \<lparr> sd_ws = ws, sd_iceServers = iceServers message \<rparr>),
                         nextRef := r + 1,
                         servers := (servers s1)(rid \<mapsto> r) \<rparr>;
                s3 = s2\<lparr> wsMetadata := (wsMetadata s2)(ws \<mapsto>
                            \<lparr> md_type = Server, md_id = rid \<rparr>) \<rparr>
            in (s3, closes @ [Send ws ((emptyMessage ''registered'')\<lparr> remoteId := Some rid \<rparr>)]))"

text \<open>
  The body of the timeout callback armed by \<open>handleConnectRequest\<close>. It reads
  \<open>serverData.iceServers\<close> from the captured object when it runs.
\<close>

definition fallback :: "Fallback \<Rightarrow> 'ws SignalingCore \<Rightarrow> 'ws SignalingCore \<times> 'ws effect list" where
  "fallback cl s =
     (case map_of (pendingClients s) (fb_sessionId cl) of
        None \<Rightarrow> (s, [])
      | Some pending \<Rightarrow>
          (s\<lparr> pendingClients := AList.delete (fb_sessionId cl) (pendingClients s),
              clients := AList.update (fb_sessionId cl)
                \<lparr> cd_ws = pc_ws pending, cd_remoteId = fb_remoteId cl \<rparr> (clients s) \<rparr>,
           [Send (pc_ws pending)
              ((emptyMessage ''connected'')
                 \<lparr> remoteId := Some (fb_remoteId cl),
                   sessionId := Some (fb_sessionId cl),
                   iceServers := Option.bind (heap s (fb_serverData cl)) sd_iceServers \<rparr>)]))"

text \<open>A timeout is one-shot: firing an armed handle disarms it and runs its callback.\<close>

definition timerFires :: "nat \<Rightarrow> 'ws SignalingCore \<Rightarrow> 'ws SignalingCore \<times> 'ws effect list" where
  "timerFires t s =
     (case timers s t of
        None \<Rightarrow> (s, [])
      | Some cl \<Rightarrow> fallback cl (s\<lparr> timers := (timers s)(t := None) \<rparr>))"

text \<open>
  \<open>if (pending.timeout) clearTimeout(pending.timeout)\<close>: a handle returned by
  \<open>setTimeout\<close> is truthy (an object in Node, a positive number in Workers), so only an
  absent handle skips the call.
\<close>

definition clearTimeout :: "nat option \<Rightarrow> (nat \<rightharpoonup> Fallback) \<Rightarrow> (nat \<rightharpoonup> Fallback)" where
  "clearTimeout h tm = (case h of Some t \<Rightarrow> tm(t := None) | None \<Rightarrow> tm)"

definition handleConnectRequest ::
  "(string \<Rightarrow> string) \<Rightarrow> 'ws \<Rightarrow> SignalingMessage \<Rightarrow> int \<Rightarrow> (nat \<Rightarrow> nat) \<Rightarrow> 'ws SignalingCore \<Rightarrow>
     'ws SignalingCore \<times> 'ws effect list" where
  "handleConnectRequest toUpperCase ws message now rnd s =
     (case map_option toUpperCase (remoteId message) of
        None \<Rightarrow> (s, [sendError ws ''Remote ID required''])
      | Some rid \<Rightarrow>
          if rid = [] then (s, [sendError ws ''Remote ID required''])
          else
            (case Option.bind (servers s rid) (\<lambda>r. map_option (Pair r) (heap s r)) of
               None \<Rightarrow>
                 (let notFound = sendError ws
                        ''Server not found. Make sure your Music Assistant server is running and has Remote Access enabled.''
                  in
                    case wsClientIp s ws of
                      None \<Rightarrow> (s, [notFound])
                    | Some ip \<Rightarrow>
                        if ip = [] then (s, [notFound])
                        else
                          let (isBlocked, rl) = recordFailedLookup ip now (rateLimiter s);
                              s1 = s\<lparr> rateLimiter := rl \<rparr>
                          in
                            if isBlocked then
                              (s1,
                               [sendError ws
                                  ''Too many failed attempts. You have been temporarily blocked.'',
                                Close ws 4008 ''Blocked for brute force''])
                            else (s1, [notFound]))
             | Some (r, serverData) \<Rightarrow>
                 let sid = generateSessionId rnd;
                     timeoutId = nextTimer s;
                     s1 = s\<lparr> timers := (timers s)(timeoutId \<mapsto>
                                 \<lparr> fb_sessionId = sid, fb_remoteId = rid, fb_serverData = r \<rparr>),
                              nextTimer := timeoutId + 1 \<rparr>;
                     s2 = s1\<lparr> pendingClients := AList.update sid
                                 \<lparr> pc_ws = ws, pc_remoteId = rid, pc_timeout = Some timeoutId \<rparr>
                                 (pendingClients s1) \<rparr>;
                     s3 = s2\<lparr> wsMetadata := (wsMetadata s2)(ws \<mapsto>
                                 \<lparr> md_type = Client, md_id = sid \<rparr>) \<rparr>
                 in (s3,
                     [Send (sd_ws serverData)
                        ((emptyMessage ''client-connected'')\<lparr> sessionId := Some sid \<rparr>)])))"

definition handleSessionReady ::
  "'ws \<Rightarrow> SignalingMessage \<Rightarrow> 'ws SignalingCore \<Rightarrow> 'ws SignalingCore \<times> 'ws effect list" where
  "handleSessionReady ws message s =
     (case sessionId message of
        None \<Rightarrow> (s, [sendError ws ''Session ID required''])
      | Some sid \<Rightarrow>
          if sid = [] then (s, [sendError ws ''Session ID required''])
          else
            (case map_of (pendingClients s) sid of
               None \<Rightarrow> (s, [])
             | Some pending \<Rightarrow>
                 (case wsMetadata s ws of
                    None \<Rightarrow> (s, [sendError ws ''Not a registered server''])
                  | Some serverMetadata \<Rightarrow>
                      if md_type serverMetadata \<noteq> Server then
                        (s, [sendError ws ''Not a registered server''])
                      else
                        let rid = md_id serverMetadata;
                            s1 = s\<lparr> timers := clearTimeout (pc_timeout pending) (timers s) \<rparr>;
                            s2 = s1\<lparr> pendingClients := AList.delete sid (pendingClients s1),
                                     clients := AList.update sid
                                       \<lparr> cd_ws = pc_ws pending, cd_remoteId = rid \<rparr> (clients s1) \<rparr>
                        in (s2,
                            [Send (pc_ws pending)
                               ((emptyMessage ''connected'')
                                  \<lparr> remoteId := Some rid, sessionId := Some sid,
                                    iceServers := iceServers message \<rparr>)]))))"

definition forwardSignalingMessage ::
  "'ws \<Rightarrow> SignalingMessage \<Rightarrow> 'ws SignalingCore \<Rightarrow> 'ws SignalingCore \<times> 'ws effect list" where
  "forwardSignalingMessage ws message s =
     (case wsMetadata s ws of
        None \<Rightarrow> (s, [sendError ws ''Not registered''])
      | Some metadata \<Rightarrow>
          (case md_type metadata of
             Client \<Rightarrow>
               (let sid = md_id metadata in
                case map_of (clients s) sid of
                  None \<Rightarrow> (s, [sendError ws ''Session not found''])
                | Some clientData \<Rightarrow>
                    (case getServer s (cd_remoteId clientData) of
                       None \<Rightarrow> (s, [sendError ws ''Server disconnected''])
                     | Some serverData \<Rightarrow>
                         (s, [Send (sd_ws serverData) (message\<lparr> sessionId := Some sid \<rparr>)])))
           | Server \<Rightarrow>
               (case sessionId message of
                  None \<Rightarrow> (s, [sendError ws ''Session ID required''])
                | Some sid \<Rightarrow>
                    if sid = [] then (s, [sendError ws ''Session ID required''])
                    else
                      (case map_of (clients s) sid of
                         None \<Rightarrow> (s, [sendError ws ''Client not found''])
                       | Some clientData \<Rightarrow> (s, [Send (cd_ws clientData) message])))))"

text \<open>The two loops of \<open>handleDisconnect\<close> over the entries of a map, deleting as they go.\<close>

fun notifyClients ::
  "string \<Rightarrow> (string \<times> 'ws ClientData) list \<Rightarrow> (string \<times> 'ws ClientData) list \<times> 'ws effect list" where
  "notifyClients rid [] = ([], [])"
| "notifyClients rid ((sid, clientData) # rest) =
     (let (keep, effs) = notifyClients rid rest in
      if cd_remoteId clientData = rid then
        (keep, Send (cd_ws clientData) (emptyMessage ''peer-disconnected'') # effs)
      else ((sid, clientData) # keep, effs))"

fun cleanPending ::
  "string \<Rightarrow> (string \<times> 'ws PendingClient) list \<Rightarrow> (nat \<rightharpoonup> Fallback) \<Rightarrow>
     (string \<times> 'ws PendingClient) list \<times> (nat \<rightharpoonup> Fallback) \<times> 'ws effect list" where
  "cleanPending rid [] tm = ([], tm, [])"
| "cleanPending rid ((sid, pending) # rest) tm =
     (if pc_remoteId pending = rid then
        let (keep, tm1, effs) = cleanPending rid rest (clearTimeout (pc_timeout pending) tm)
        in (keep, tm1, sendError (pc_ws pending) ''Server disconnected'' # effs)
      else
        let (keep, tm1, effs) = cleanPending rid rest tm
        in ((sid, pending) # keep, tm1, effs))"

definition handleDisconnect :: "'ws \<Rightarrow> 'ws SignalingCore \<Rightarrow> 'ws SignalingCore \<times> 'ws effect list" where
  "handleDisconnect ws s =
     (case wsMetadata s ws of
        None \<Rightarrow> (s, [])
      | Some metadata \<Rightarrow>
          let (s1, effs) =
                (case md_type metadata of
                   Server \<Rightarrow>
                     (let rid = md_id metadata in
                      if (case getServer s rid of
                            Some serverData \<Rightarrow> sd_ws serverData = ws
                          | None \<Rightarrow> False)
                      then
                        let s1 = s\<lparr> servers := (servers s)(rid := None),
                                    wsMetadata := (wsMetadata s)(ws := None) \<rparr>;
                            (keepC, effC) = notifyClients rid (clients s1);
                            s2 = s1\<lparr> clients := keepC \<rparr>;
                            (keepP, tm, effP) = cleanPending rid (pendingClients s2) (timers s2)
                        in (s2\<lparr> pendingClients := keepP, timers := tm \<rparr>, effC @ effP)
                      else (s\<lparr> wsMetadata := (wsMetadata s)(ws := None) \<rparr>, []))
                 | Client \<Rightarrow>
                     (let sid = md_id metadata;
                          s1 = (case map_of (pendingClients s) sid of
                                  Some pending \<Rightarrow>
                                    s\<lparr> timers := clearTimeout (pc_timeout pending) (timers s),
                                        pendingClients := AList.delete sid (pendingClients s) \<rparr>
                                | None \<Rightarrow> s);
                          (s2, effs) =
                            (case map_of (clients s1) sid of
                               Some clientData \<Rightarrow>
                                 (s1\<lparr> clients := AList.delete sid (clients s1) \<rparr>,
                                  (case getServer s1 (cd_remoteId clientData) of
                                     Some serverData \<Rightarrow>
                                       [Send (sd_ws serverData)
                                          ((emptyMessage ''client-disconnected'')
                                             \<lparr> sessionId := Some sid \<rparr>)]
                                   | None \<Rightarrow> []))
                             | None \<Rightarrow> (s1, []))
                      in (s2\<lparr> wsMetadata := (wsMetadata s2)(ws := None) \<rparr>, effs)))
          in (s1\<lparr> wsClientIp := (wsClientIp s1)(ws := None) \<rparr>, effs))"

definition isOnline ::
  "(string \<Rightarrow> string) \<Rightarrow> 'ws SignalingCore \<Rightarrow> string \<Rightarrow> bool" where
  "isOnline toUpperCase s rid = (servers s (toUpperCase rid) \<noteq> None)"

text \<open>
  \<open>handleMessage\<close>: \<open>now\<close> is the value of \<open>Date.now()\<close> during the event (the rate
  check and the failed-lookup record of one event read the same millisecond) and \<open>rnd\<close>
  the random draws of \<open>generateSessionId\<close>. \<open>dispatch\<close> is the \<open>switch\<close> on the message
  type.
\<close>

definition dispatch ::
  "(string \<Rightarrow> string) \<Rightarrow> 'ws \<Rightarrow> SignalingMessage \<Rightarrow> int \<Rightarrow> (nat \<Rightarrow> nat) \<Rightarrow> 'ws SignalingCore \<Rightarrow>
     'ws SignalingCore \<times> 'ws effect list" where
  "dispatch toUpperCase ws message now rnd s =
     (if msg_type message = ''ping'' then (s, [Send ws (emptyMessage ''pong'')])
      else if msg_type message = ''pong'' then (s, [])
      else if msg_type message = ''register-server'' then handleServerRegister toUpperCase ws message s
      else if msg_type message = ''connect-request'' then
        handleConnectRequest toUpperCase ws message now rnd s
      else if msg_type message = ''session-ready'' then handleSessionReady ws message s
      else if msg_type message = ''offer'' \<or> msg_type message = ''answer''
              \<or> msg_type message = ''ice-candidate'' then
        forwardSignalingMessage ws message s
      else (s, [sendError ws (''Unknown message type: '' @ msg_type message)]))"

definition handleMessage ::
  "(string \<Rightarrow> string) \<Rightarrow> 'ws \<Rightarrow> SignalingMessage \<Rightarrow> int \<Rightarrow> (nat \<Rightarrow> nat) \<Rightarrow> 'ws SignalingCore \<Rightarrow>
     'ws SignalingCore \<times> 'ws effect list" where
  "handleMessage toUpperCase ws message now rnd s =
     (if msg_type message \<noteq> ''ping'' \<and> msg_type message \<noteq> ''pong'' then
        let (ok, s1, effs) = checkRateLimit ws now s in
        if \<not> ok then (s1, effs)
        else
          let (s2, effs2) = dispatch toUpperCase ws message now rnd s1 in (s2, effs @ effs2)
      else dispatch toUpperCase ws message now rnd s)"

subsection \<open>Events\<close>

text \<open>
  Each inbound message, disconnect notification, timer firing, address registration and
  periodic clean-up is one event that runs to completion.
\<close>

datatype 'ws event =
    Message 'ws SignalingMessage int "nat \<Rightarrow> nat"
  | Disconnect 'ws
  | TimerFires nat
  | SetClientIp 'ws string
  | Cleanup int

fun step ::
  "(string \<Rightarrow> string) \<Rightarrow> 'ws event \<Rightarrow> 'ws SignalingCore \<Rightarrow> 'ws SignalingCore \<times> 'ws effect list" where
  "step toUpperCase (Message ws message now rnd) s = handleMessage toUpperCase ws message now rnd s"
| "step toUpperCase (Disconnect ws) s = handleDisconnect ws s"
| "step toUpperCase (TimerFires t) s = timerFires t s"
| "step toUpperCase (SetClientIp ws ip) s = (setClientIp ws ip s, [])"
| "step toUpperCase (Cleanup now) s = (s\<lparr> rateLimiter := cleanup now (rateLimiter s) \<rparr>, [])"

fun run ::
  "(string \<Rightarrow> string) \<Rightarrow> 'ws event list \<Rightarrow> 'ws SignalingCore \<Rightarrow> 'ws SignalingCore \<times> 'ws effect list" where
  "run toUpperCase [] s = (s, [])"
| "run toUpperCase (e # es) s =
     (let (s1, effs1) = step toUpperCase e s; (s2, effs2) = run toUpperCase es s1 in (s2, effs1 @ effs2))"

section \<open>Notions used in the statements\<close>

text \<open>
  The failed-lookup count of an address in the current window and the request-rate
  record that \<open>recordFailedLookup\<close> starts from, both as the call at time \<open>now\<close> sees them.
\<close>

definition failedCount :: "string \<Rightarrow> int \<Rightarrow> RateLimiter \<Rightarrow> int" where
  "failedCount ip now rl =
     (case failedLookups rl ip of
        Some f \<Rightarrow> if now - fl_windowStart f > failedLookupWindowMs rl then 0 else fl_count f
      | None \<Rightarrow> 0)"

definition priorRecord :: "string \<Rightarrow> int \<Rightarrow> RateLimiter \<Rightarrow> RateLimitRecord" where
  "priorRecord ip now rl =
     (case requests rl ip of
        Some r \<Rightarrow> r
      | None \<Rightarrow>
          \<lparr> count = 0, windowStart = now, blocked = False, blockExpires = Finite 0,
            violations = 0 \<rparr>)"

text \<open>The \<open>connected\<close> message a promoted client receives.\<close>

definition connectedMsg :: "string \<Rightarrow> string \<Rightarrow> IceServerConfig list option \<Rightarrow> SignalingMessage" where
  "connectedMsg rid sid ice =
     (emptyMessage ''connected'')\<lparr> remoteId := Some rid, sessionId := Some sid, iceServers := ice \<rparr>"

text \<open>
  The states the core can be in: every registered object has been created and is
  allocated, no object is registered under two remote ids, and a connection with the
  identity \<open>server\<close> for a remote id is the connection registered under it. The empty
  core is such a state and every event preserves this (\<open>wellFormed_run\<close>).
\<close>

definition wellFormed :: "'ws SignalingCore \<Rightarrow> bool" where
  "wellFormed s =
     ((\<forall>rid r. servers s rid = Some r \<longrightarrow> r < nextRef s \<and> heap s r \<noteq> None)
      \<and> (\<forall>rid rid' r. servers s rid = Some r \<and> servers s rid' = Some r \<longrightarrow> rid = rid')
      \<and> (\<forall>ws md. wsMetadata s ws = Some md \<and> md_type md = Server \<longrightarrow>
            map_option sd_ws (getServer s (md_id md)) = Some ws))"

text \<open>
  No session id is a key of both \<open>pendingClients\<close> and \<open>clients\<close>. An event draws a
  fresh id when the id that \<open>generateSessionId\<close> yields for a \<open>connect-request\<close> is a key
  of neither map; \<open>freshRun\<close> asks this of every event of a run, in the state the event
  meets.
\<close>

definition sessionIdsDisjoint :: "'ws SignalingCore \<Rightarrow> bool" where
  "sessionIdsDisjoint s = (fst ` set (pendingClients s) \<inter> fst ` set (clients s) = {})"

fun freshDraw :: "'ws event \<Rightarrow> 'ws SignalingCore \<Rightarrow> bool" where
  "freshDraw (Message ws message now rnd) s =
     (msg_type message = ''connect-request'' \<longrightarrow>
      generateSessionId rnd \<notin> fst ` set (pendingClients s) \<union> fst ` set (clients s))"
| "freshDraw e s = True"

fun freshRun ::
  "(string \<Rightarrow> string) \<Rightarrow> 'ws event list \<Rightarrow> 'ws SignalingCore \<Rightarrow> bool" where
  "freshRun toUpperCase [] s = True"
| "freshRun toUpperCase (e # es) s = (freshDraw e s \<and> freshRun toUpperCase es (fst (step toUpperCase e s)))"

section \<open>Example configurations\<close>

definition exOptions :: RateLimiterOptions where
  "exOptions = \<lparr> opt_windowMs = None, opt_maxRequests = Some 2, opt_maxFailedLookups = None,
                 opt_failedLookupWindowMs = None, opt_baseBlockDurationMs = None \<rparr>"

definition exLimiter :: RateLimiter where
  "exLimiter = newRateLimiter (Some exOptions)"

definition exBlocked :: RateLimiter where
  "exBlocked = exLimiter\<lparr> requests :=
     [''10.0.0.1'' \<mapsto> \<lparr> count = 3, windowStart = 0, blocked = True, blockExpires = Finite 60002,
                        violations = 1 \<rparr>] \<rparr>"

definition exCounted :: RateLimiter where
  "exCounted = exLimiter\<lparr> requests :=
     [''10.0.0.1'' \<mapsto> \<lparr> count = 2, windowStart = 0, blocked = False, blockExpires = Finite 0,
                        violations = 1 \<rparr>] \<rparr>"

definition exNineFailed :: RateLimiter where
  "exNineFailed = (newRateLimiter None)\<lparr> failedLookups :=
     [''10.0.0.1'' \<mapsto> \<lparr> fl_count = 9, fl_windowStart = 0 \<rparr>] \<rparr>"

text \<open>
  The ids of the examples are ASCII text, on which \<open>String.prototype.toUpperCase\<close>
  maps the letters a to z to A to Z and keeps every other character.
\<close>

definition asciiUpperChar :: "char \<Rightarrow> char" where
  "asciiUpperChar c =
     (case map_of (zip ''abcdefghijklmnopqrstuvwxyz'' ''ABCDEFGHIJKLMNOPQRSTUVWXYZ'') c of
        Some u \<Rightarrow> u
      | None \<Rightarrow> c)"

definition asciiUpper :: "string \<Rightarrow> string" where
  "asciiUpper s = map asciiUpperChar s"

text \<open>
  Connections are numbered. No connection has a source address, so the examples run
  without rate limiting.
\<close>

definition rndA :: "nat \<Rightarrow> nat" where "rndA i = 0"

definition rndB :: "nat \<Rightarrow> nat" where "rndB i = 1"

definition sidA :: string where "sidA = ''AAAAAAAAAAAAAAAA''"

definition sidB :: string where "sidB = ''BBBBBBBBBBBBBBBB''"

definition stun1 :: IceServerConfig where
  "stun1 = \<lparr> urls = Url ''stun:one.example'', username = None, credential = None \<rparr>"

definition turn2 :: IceServerConfig where
  "turn2 = \<lparr> urls = UrlList [''turn:two.example''], username = Some ''u'', credential = Some ''p'' \<rparr>"

definition turn3 :: IceServerConfig where
  "turn3 = \<lparr> urls = Url ''turn:three.example'', username = Some ''v'', credential = Some ''q'' \<rparr>"

definition exCore :: "nat SignalingCore" where
  "exCore = newSignalingCore (newRateLimiter None)"

definition registerMsg :: "string \<Rightarrow> IceServerConfig list \<Rightarrow> SignalingMessage" where
  "registerMsg rid ice = (emptyMessage ''register-server'')\<lparr> remoteId := Some rid, iceServers := Some ice \<rparr>"

definition connectMsg :: "string \<Rightarrow> SignalingMessage" where
  "connectMsg rid = (emptyMessage ''connect-request'')\<lparr> remoteId := Some rid \<rparr>"

definition readyMsg :: "string \<Rightarrow> IceServerConfig list \<Rightarrow> SignalingMessage" where
  "readyMsg sid ice = (emptyMessage ''session-ready'')\<lparr> sessionId := Some sid, iceServers := Some ice \<rparr>"

definition offerMsg :: SignalingMessage where
  "offerMsg = (emptyMessage ''offer'')\<lparr> data := Some ''sdp'' \<rparr>"

text \<open>Servers 11 and 12 have registered AAA and BBB.\<close>

definition exRegistered :: "nat SignalingCore" where
  "exRegistered = fst (run asciiUpper [Message 11 (registerMsg ''aaa'' [stun1, turn2]) 0 rndA,
                            Message 12 (registerMsg ''bbb'' [turn3]) 0 rndA] exCore)"

text \<open>Then client 13 asks for aaa and is pending, with timeout 1.\<close>

definition exPending :: "nat SignalingCore" where
  "exPending = fst (run asciiUpper [Message 11 (registerMsg ''aaa'' [stun1, turn2]) 0 rndA,
                         Message 12 (registerMsg ''bbb'' [turn3]) 0 rndA,
                         Message 13 (connectMsg ''Aaa'') 0 rndA] exCore)"

text \<open>Then server 11 answers \<open>session-ready\<close> and the session of client 13 is active.\<close>

definition exActive :: "nat SignalingCore" where
  "exActive = fst (run asciiUpper [Message 11 (registerMsg ''aaa'' [stun1, turn2]) 0 rndA,
                        Message 12 (registerMsg ''bbb'' [turn3]) 0 rndA,
                        Message 13 (connectMsg ''Aaa'') 0 rndA,
                        Message 11 (readyMsg sidA [turn3]) 0 rndA] exCore)"

text \<open>Then connection 14 registers aaa, and the evicted connection 11 is disconnected.\<close>

definition exReplaced :: "nat SignalingCore" where
  "exReplaced = fst (run asciiUpper [Message 14 (registerMsg ''aaa'' [turn3]) 0 rndA, Disconnect 11] exActive)"

text \<open>
  Instead, after \<open>exActive\<close>, client 15 asks for aaa and the generator draws the id of
  the active session again.
\<close>

definition exCollision :: "nat SignalingCore" where
  "exCollision = fst (run asciiUpper [Message 11 (registerMsg ''aaa'' [stun1, turn2]) 0 rndA,
                        Message 12 (registerMsg ''bbb'' [turn3]) 0 rndA,
                        Message 13 (connectMsg ''Aaa'') 0 rndA,
                        Message 11 (readyMsg sidA [turn3]) 0 rndA,
                        Message 15 (connectMsg ''aaa'') 0 rndA] exCore)"

text \<open>A run in which every id drawn is fresh.\<close>

definition exFreshEvents :: "nat event list" where
  "exFreshEvents = [Message 11 (registerMsg ''aaa'' [stun1, turn2]) 0 rndA,
                    Message 13 (connectMsg ''Aaa'') 0 rndA,
                    Message 11 (readyMsg sidA [turn3]) 0 rndA,
                    Message 15 (connectMsg ''aaa'') 0 rndB,
                    TimerFires 2,
                    Disconnect 13]"

text \<open>A \<open>register-server\<close> without \<open>iceServers\<close>.\<close>

definition registerOnlyMsg :: "string \<Rightarrow> SignalingMessage" where
  "registerOnlyMsg rid = (emptyMessage ''register-server'')\<lparr> remoteId := Some rid \<rparr>"

text \<open>
  Connection 21 has registered aaa with one ICE server and then bbb, so that it holds
  both registrations and its identity is BBB.
\<close>

definition exTwoIds :: "nat SignalingCore" where
  "exTwoIds = fst (run asciiUpper [Message 21 (registerMsg ''aaa'' [stun1]) 0 rndA,
                                   Message 21 (registerMsg ''bbb'' [turn2]) 0 rndA] exCore)"

text \<open>The events that lead to \<open>exPending\<close>.\<close>

definition exPendingEvents :: "nat event list" where
  "exPendingEvents = [Message 11 (registerMsg ''aaa'' [stun1, turn2]) 0 rndA,
                      Message 12 (registerMsg ''bbb'' [turn3]) 0 rndA,
                      Message 13 (connectMsg ''Aaa'') 0 rndA]"

section \<open>Rate limiter: request-rate window and failed lookups\<close>

lemma blockDuration_positive_base:
  assumes "0 < base" and "0 \<le> e"
  shows "minNumber (timesNumber base (pow2 e)) 3600000 = Finite (min (base * 2 ^ nat e) 3600000)"
proof (cases "e < 1024")
  case True
  have cap: "(3600000::int) \<le> 2 ^ 1024" by simp
  from assms have pos: "0 < base * 2 ^ nat e" by simp
  show ?thesis
  proof (cases "(2::int) ^ 1024 \<le> base * 2 ^ nat e")
    case True
    with cap have "(3600000::int) \<le> base * 2 ^ nat e" by linarith
    with True pos \<open>e < 1024\<close> show ?thesis
      by (simp add: pow2_def min_def abs_if)
  next
    case False
    with pos \<open>e < 1024\<close> show ?thesis
      by (simp add: pow2_def abs_if)
  qed
next
  case False
  then have "1024 \<le> nat e" by simp
  then have "(2::int) ^ 1024 \<le> 2 ^ nat e" by (intro power_increasing) simp_all
  moreover have "(3600000::int) \<le> 2 ^ 1024" by simp
  ultimately have a: "(3600000::int) \<le> 2 ^ nat e" by linarith
  have "(2::int) ^ nat e \<le> base * 2 ^ nat e"
    using assms(1) by (simp add: mult_le_cancel_right1)
  with a have "(3600000::int) \<le> base * 2 ^ nat e" by linarith
  with False assms(1) show ?thesis
    by (simp add: pow2_def min_def)
qed

lemma blockDuration_not_finite:
  "minNumber (timesNumber 0 (pow2 1024)) 3600000 = NaN"
  "minNumber (timesNumber (- 1) (pow2 1024)) 3600000 = NegInfinity"
  by (simp_all add: pow2_def)

lemma checkRequest_allowed_step:
  assumes "requests rl ip = Some r" "\<not> blocked r" "now - windowStart r \<le> windowMs rl"
    "count r + 1 \<le> maxRequests rl"
  shows "checkRequest ip now rl =
           (\<lparr> allowed = True, retryAfter = None \<rparr>,
            rl\<lparr> requests := (requests rl)(ip \<mapsto> r\<lparr> count := count r + 1 \<rparr>) \<rparr>)"
  using assms by (simp add: checkRequest_def Let_def)

lemma checkRequest_violation_step:
  assumes "requests rl ip = Some r" "\<not> blocked r" "now - windowStart r \<le> windowMs rl"
    "maxRequests rl < count r + 1" "0 < baseBlockDurationMs rl" "0 \<le> violations r"
  shows "checkRequest ip now rl =
           (\<lparr> allowed = False,
              retryAfter = Some (ceilSeconds (Finite
                (min (baseBlockDurationMs rl * 2 ^ nat (violations r)) 3600000))) \<rparr>,
            rl\<lparr> requests := (requests rl)(ip \<mapsto>
                 r\<lparr> count := count r + 1, violations := violations r + 1, blocked := True,
                    blockExpires := Finite
                      (now + min (baseBlockDurationMs rl * 2 ^ nat (violations r)) 3600000) \<rparr>) \<rparr>)"
  using assms blockDuration_positive_base [OF assms(5,6)]
  by (simp add: checkRequest_def Let_def)

lemma checkRequest_fresh:
  assumes "requests rl ip = None"
  shows "checkRequest ip now rl =
           checkRequest ip now (rl\<lparr> requests := (requests rl)(ip \<mapsto>
             \<lparr> count = 0, windowStart = now, blocked = False, blockExpires = Finite 0,
               violations = 0 \<rparr>) \<rparr>)"
  using assms by (simp add: checkRequest_def Let_def)

lemma checkRequest_expired:
  assumes "requests rl ip = Some r" "blocked r" "\<not> lessNumber now (blockExpires r)"
  shows "checkRequest ip now rl =
           checkRequest ip now (rl\<lparr> requests := (requests rl)(ip \<mapsto>
             r\<lparr> blocked := False, count := 0, windowStart := now \<rparr>) \<rparr>)"
  using assms by (simp add: checkRequest_def Let_def)

lemma checkRequest_window_expired:
  assumes "requests rl ip = Some r" "\<not> blocked r" "windowMs rl < now - windowStart r"
    "0 \<le> windowMs rl"
  shows "checkRequest ip now rl =
           checkRequest ip now (rl\<lparr> requests := (requests rl)(ip \<mapsto>
             r\<lparr> count := 0, windowStart := now,
                violations := (if violations r > 0 then violations r - 1 else violations r) \<rparr>) \<rparr>)"
  using assms by (simp add: checkRequest_def Let_def)

lemma checkRequest_blocked:
  assumes "requests rl ip = Some r" "blocked r" "lessNumber now (blockExpires r)"
  shows "checkRequest ip now rl =
           (\<lparr> allowed = False,
              retryAfter = Some (ceilSeconds (minusNumber (blockExpires r) now)) \<rparr>, rl)"
  using assms by (simp add: checkRequest_def Let_def)

lemma checkRequests_unblocked:
  assumes "requests rl ip = Some r" "\<not> blocked r"
    "\<forall>t\<in>set ts. t - windowStart r \<le> windowMs rl"
    "count r + int (length ts) = maxRequests rl + 1" "ts \<noteq> []"
    "0 < baseBlockDurationMs rl" "0 \<le> violations r"
  shows "fst (checkRequests ip ts rl) =
           replicate (length ts - 1) \<lparr> allowed = True, retryAfter = None \<rparr> @
           [\<lparr> allowed = False,
              retryAfter = Some (ceilSeconds (Finite
                (min (baseBlockDurationMs rl * 2 ^ nat (violations r)) 3600000))) \<rparr>]
         \<and> requests (snd (checkRequests ip ts rl)) ip =
             Some (r\<lparr> count := maxRequests rl + 1, violations := violations r + 1,
                    blocked := True,
                    blockExpires := Finite
                      (last ts + min (baseBlockDurationMs rl * 2 ^ nat (violations r)) 3600000) \<rparr>)"
  using assms
proof (induction ts arbitrary: rl r)
  case Nil
  then show ?case by simp
next
  case (Cons t ts)
  show ?case
  proof (cases "ts = []")
    case True
    with Cons.prems have "maxRequests rl < count r + 1" by simp
    from checkRequest_violation_step [OF Cons.prems(1,2) _ this Cons.prems(6,7), of t]
      Cons.prems(3,4) True
    show ?thesis by simp
  next
    case False
    with Cons.prems have le: "count r + 1 \<le> maxRequests rl" by (cases ts) auto
    have w: "t - windowStart r \<le> windowMs rl" using Cons.prems(3) by simp
    let ?r = "r\<lparr> count := count r + 1 \<rparr>"
    let ?rl = "rl\<lparr> requests := (requests rl)(ip \<mapsto> ?r) \<rparr>"
    have first: "checkRequest ip t rl = (\<lparr> allowed = True, retryAfter = None \<rparr>, ?rl)"
      by (rule checkRequest_allowed_step [OF Cons.prems(1,2) w le])
    have ih: "fst (checkRequests ip ts ?rl) =
           replicate (length ts - 1) \<lparr> allowed = True, retryAfter = None \<rparr> @
           [\<lparr> allowed = False,
              retryAfter = Some (ceilSeconds (Finite
                (min (baseBlockDurationMs ?rl * 2 ^ nat (violations ?r)) 3600000))) \<rparr>]
         \<and> requests (snd (checkRequests ip ts ?rl)) ip =
             Some (?r\<lparr> count := maxRequests ?rl + 1, violations := violations ?r + 1,
                    blocked := True,
                    blockExpires := Finite
                      (last ts + min (baseBlockDurationMs ?rl * 2 ^ nat (violations ?r)) 3600000) \<rparr>)"
      using Cons.prems False by (intro Cons.IH) auto
    from False have len: "length ts - 1 + 1 = length ts" by (cases ts) auto
    show ?thesis using ih first False len
      by (simp add: split_def Let_def replicate_app_Cons_same flip: replicate_Suc)
  qed
qed

lemma checkRequest_violations_nonneg:
  assumes "\<forall>a r. requests rl a = Some r \<longrightarrow> 0 \<le> violations r"
    and "requests (snd (checkRequest ip now rl)) a = Some r"
  shows "0 \<le> violations r"
  using assms
  by (auto simp: checkRequest_def Let_def split: option.splits if_splits)

lemma recordFailedLookup_violations_nonneg:
  assumes "\<forall>a r. requests rl a = Some r \<longrightarrow> 0 \<le> violations r"
    and "requests (snd (recordFailedLookup ip now rl)) a = Some r"
  shows "0 \<le> violations r"
  using assms
  by (auto simp: recordFailedLookup_def Let_def split: option.splits if_splits)

lemma FailedLookupRecord_overwrite:
  "(f :: FailedLookupRecord)\<lparr> fl_count := a, fl_windowStart := b \<rparr> =
     \<lparr> fl_count = a, fl_windowStart = b \<rparr>"
  by (cases f) simp

text \<open>
  Claim C3, as the code has it. Let \<open>baseBlockDurationMs\<close> be positive. When a failed
  lookup brings the failed-lookup count of an address to the threshold
  \<open>maxFailedLookups\<close>, \<open>recordFailedLookup\<close> returns \<open>true\<close>, adds 2 to the violations
  of the request-rate record of the address (a new record if there is none), sets it
  blocked, sets \<open>blockExpires\<close> to the finite number
  \<open>now + min(baseBlockDurationMs * 2^violations, 3600000)\<close> with the violations as
  they are after adding 2, and resets the failed-lookup counter to zero with a window
  starting at \<open>now\<close>. The exponent is \<open>violations\<close>, not the \<open>violations - 1\<close> of
  \<open>checkRequest\<close>. (With a base that is not positive the duration need not be finite,
  lemma \<open>blockDuration_not_finite\<close>.)
\<close>

theorem recordFailedLookup_threshold:
  assumes "maxFailedLookups rl \<le> failedCount ip now rl + 1"
    and "0 \<le> violations (priorRecord ip now rl)"
    and "0 < baseBlockDurationMs rl"
  shows "recordFailedLookup ip now rl =
           (True,
            rl\<lparr> requests := (requests rl)(ip \<mapsto>
                   (priorRecord ip now rl)
                     \<lparr> violations := violations (priorRecord ip now rl) + 2,
                       blocked := True,
                       blockExpires := Finite (now +
                         min (baseBlockDurationMs rl * 2 ^ nat (violations (priorRecord ip now rl) + 2))
                             3600000) \<rparr>),
                failedLookups := (failedLookups rl)(ip \<mapsto> \<lparr> fl_count = 0, fl_windowStart = now \<rparr>) \<rparr>)"
proof -
  have d: "minNumber (timesNumber (baseBlockDurationMs rl)
              (pow2 (violations (priorRecord ip now rl) + 2))) 3600000 =
           Finite (min (baseBlockDurationMs rl * 2 ^ nat (violations (priorRecord ip now rl) + 2))
                     3600000)"
    using assms(2,3) by (intro blockDuration_positive_base) simp_all
  have thr: "maxFailedLookups rl \<le>
      fl_count ((if now - fl_windowStart (case failedLookups rl ip of
                  Some f \<Rightarrow> f
                | None \<Rightarrow> \<lparr> fl_count = 0, fl_windowStart = now \<rparr>) > failedLookupWindowMs rl
            then (case failedLookups rl ip of
                  Some f \<Rightarrow> f
                | None \<Rightarrow> \<lparr> fl_count = 0, fl_windowStart = now \<rparr>)\<lparr> fl_count := 0, fl_windowStart := now \<rparr>
            else (case failedLookups rl ip of
                  Some f \<Rightarrow> f
                | None \<Rightarrow> \<lparr> fl_count = 0, fl_windowStart = now \<rparr>))) + 1"
    using assms(1) by (auto simp: failedCount_def split: option.splits)
  have q: "(case requests rl ip of
                      Some r \<Rightarrow> r
                    | None \<Rightarrow>
                        \<lparr> count = 0, windowStart = now, blocked = False, blockExpires = Finite 0,
                          violations = 0 \<rparr>) = priorRecord ip now rl"
    by (simp add: priorRecord_def)
  show ?thesis
    using thr d unfolding recordFailedLookup_def Let_def q
    by (simp add: FailedLookupRecord_overwrite)
qed

text \<open>
  The tenth failed lookup of an address under the default configuration: two
  violations, blocked for \<open>60000 * 2^2\<close> ms.
\<close>

theorem recordFailedLookup_threshold_witness:
  "recordFailedLookup ''10.0.0.1'' 1000 exNineFailed =
     (True,
      exNineFailed\<lparr> requests := [''10.0.0.1'' \<mapsto>
           \<lparr> count = 0, windowStart = 1000, blocked = True, blockExpires = Finite 241000,
             violations = 2 \<rparr>],
         failedLookups := [''10.0.0.1'' \<mapsto> \<lparr> fl_count = 0, fl_windowStart = 1000 \<rparr>] \<rparr>)"
proof -
  have h1: "maxFailedLookups exNineFailed \<le> failedCount ''10.0.0.1'' 1000 exNineFailed + 1"
    by (simp add: exNineFailed_def newRateLimiter_def failedCount_def)
  have h2: "0 \<le> violations (priorRecord ''10.0.0.1'' 1000 exNineFailed)"
    by (simp add: exNineFailed_def newRateLimiter_def priorRecord_def)
  have h3: "0 < baseBlockDurationMs exNineFailed"
    by (simp add: exNineFailed_def newRateLimiter_def)
  show ?thesis
    using recordFailedLookup_threshold [OF h1 h2 h3]
    by (simp add: exNineFailed_def newRateLimiter_def priorRecord_def)
qed

text \<open>
  Claim C3 as stated fails there: with 2 violations the formula of \<open>checkRequest\<close>,
  \<open>min(baseBlockDurationMs * 2^(violations - 1), 3600000)\<close>, gives a block of 120000 ms
  ending at 121000, and the code blocks until 241000.
\<close>

theorem recordFailedLookup_formula_counterexample:
  "map_option blockExpires
      (requests (snd (recordFailedLookup ''10.0.0.1'' 1000 exNineFailed)) ''10.0.0.1'')
     = Some (Finite 241000)
   \<and> map_option violations
      (requests (snd (recordFailedLookup ''10.0.0.1'' 1000 exNineFailed)) ''10.0.0.1'')
     = Some 2
   \<and> Finite 241000 \<noteq>
       Finite (1000 + min (baseBlockDurationMs exNineFailed * 2 ^ (2 - 1)) 3600000)"
  by (simp add: recordFailedLookup_def exNineFailed_def newRateLimiter_def Let_def pow2_def)

text \<open>
  Claim C7. Let \<open>baseBlockDurationMs\<close> be positive, let \<open>N = maxRequests\<close> and let
  \<open>N + 1\<close> calls of \<open>checkRequest\<close> for one address be made at the times \<open>t0 # ts\<close>, all
  within one window of the first.
  \<^item> For an address without a record, the first \<open>N\<close> calls are allowed and call
    \<open>N + 1\<close> is denied: the record is blocked with one violation for
    \<open>min(baseBlockDurationMs, 3600000)\<close> ms, which is \<open>baseBlockDurationMs\<close> itself
    unless that exceeds the cap of one hour.
  \<^item> For an address with a record that is not blocked, has \<open>v\<close> violations and has
    counted \<open>c\<close> calls in its window, further calls \<open>us\<close> within that window are allowed
    until the count is \<open>N\<close>, and the call that makes it \<open>N + 1\<close> is denied for
    \<open>min(baseBlockDurationMs * 2^v, 3600000)\<close> ms, with \<open>v + 1\<close> violations.
  \<^item> For an address with a record that is not blocked and whose window is over at
    \<open>t0\<close>, the window restarts and the violations decay by one (not below zero) before
    the calls are counted: the first \<open>N\<close> calls are allowed and call \<open>N + 1\<close> is denied
    for \<open>min(baseBlockDurationMs * 2^(v - 1), 3600000)\<close> ms (\<open>2^0\<close> for \<open>v = 0\<close>).
  \<^item> For an address whose block has expired and which has \<open>v\<close> violations, the first
    \<open>N\<close> calls are allowed and call \<open>N + 1\<close> is denied for
    \<open>min(baseBlockDurationMs * 2^v, 3600000)\<close> ms, with \<open>v + 1\<close> violations: every further
    violation doubles the duration, up to the cap.
  \<^item> While the block lasts, a call is denied with the remaining time
    \<open>blockExpires - now\<close> in seconds, rounded up, and changes nothing.
  \<^item> The first call after the block has expired is allowed (for \<open>N \<ge> 1\<close>); it clears
    \<open>blocked\<close>, restarts the window with a count of 1 and keeps the violations.
\<close>

theorem checkRequest_backoff:
  assumes "0 < baseBlockDurationMs rl" and "0 \<le> windowMs rl" and "0 \<le> maxRequests rl"
    and "length ts = nat (maxRequests rl)" and "\<forall>t\<in>set ts. t - t0 \<le> windowMs rl"
  shows
    "(requests rl ip = None \<longrightarrow>
        fst (checkRequests ip (t0 # ts) rl) =
          replicate (nat (maxRequests rl)) \<lparr> allowed = True, retryAfter = None \<rparr> @
          [\<lparr> allowed = False,
             retryAfter = Some (ceilSeconds (Finite (min (baseBlockDurationMs rl) 3600000))) \<rparr>]
        \<and> map_option (\<lambda>r. (blocked r, violations r, blockExpires r))
            (requests (snd (checkRequests ip (t0 # ts) rl)) ip) =
            Some (True, 1, Finite (last (t0 # ts) + min (baseBlockDurationMs rl) 3600000)))
     \<and> (\<forall>r us. requests rl ip = Some r \<and> \<not> blocked r \<and> 0 \<le> violations r \<and> us \<noteq> []
            \<and> count r + int (length us) = maxRequests rl + 1
            \<and> (\<forall>u\<in>set us. u - windowStart r \<le> windowMs rl) \<longrightarrow>
        fst (checkRequests ip us rl) =
          replicate (length us - 1) \<lparr> allowed = True, retryAfter = None \<rparr> @
          [\<lparr> allowed = False,
             retryAfter = Some (ceilSeconds (Finite
               (min (baseBlockDurationMs rl * 2 ^ nat (violations r)) 3600000))) \<rparr>]
        \<and> map_option (\<lambda>r. (blocked r, violations r, blockExpires r))
            (requests (snd (checkRequests ip us rl)) ip) =
            Some (True, violations r + 1,
                  Finite (last us + min (baseBlockDurationMs rl * 2 ^ nat (violations r)) 3600000)))
     \<and> (\<forall>r. requests rl ip = Some r \<and> \<not> blocked r \<and> 0 \<le> violations r
            \<and> windowMs rl < t0 - windowStart r \<longrightarrow>
        fst (checkRequests ip (t0 # ts) rl) =
          replicate (nat (maxRequests rl)) \<lparr> allowed = True, retryAfter = None \<rparr> @
          [\<lparr> allowed = False,
             retryAfter = Some (ceilSeconds (Finite
               (min (baseBlockDurationMs rl * 2 ^ nat (violations r - 1)) 3600000))) \<rparr>]
        \<and> map_option (\<lambda>r. (blocked r, violations r, blockExpires r))
            (requests (snd (checkRequests ip (t0 # ts) rl)) ip) =
            Some (True, max 0 (violations r - 1) + 1,
                  Finite (last (t0 # ts) +
                    min (baseBlockDurationMs rl * 2 ^ nat (violations r - 1)) 3600000)))
     \<and> (\<forall>r. requests rl ip = Some r \<and> blocked r \<and> \<not> lessNumber t0 (blockExpires r)
            \<and> 0 \<le> violations r \<longrightarrow>
        fst (checkRequests ip (t0 # ts) rl) =
          replicate (nat (maxRequests rl)) \<lparr> allowed = True, retryAfter = None \<rparr> @
          [\<lparr> allowed = False,
             retryAfter = Some (ceilSeconds (Finite
               (min (baseBlockDurationMs rl * 2 ^ nat (violations r)) 3600000))) \<rparr>]
        \<and> map_option (\<lambda>r. (blocked r, violations r, blockExpires r))
            (requests (snd (checkRequests ip (t0 # ts) rl)) ip) =
            Some (True, violations r + 1,
                  Finite (last (t0 # ts) +
                    min (baseBlockDurationMs rl * 2 ^ nat (violations r)) 3600000)))
     \<and> (\<forall>r now. requests rl ip = Some r \<and> blocked r \<and> lessNumber now (blockExpires r) \<longrightarrow>
        checkRequest ip now rl =
          (\<lparr> allowed = False,
             retryAfter = Some (ceilSeconds (minusNumber (blockExpires r) now)) \<rparr>, rl))
     \<and> (\<forall>r. requests rl ip = Some r \<and> blocked r \<and> \<not> lessNumber t0 (blockExpires r)
            \<and> 1 \<le> maxRequests rl \<longrightarrow>
        checkRequest ip t0 rl =
          (\<lparr> allowed = True, retryAfter = None \<rparr>,
           rl\<lparr> requests := (requests rl)(ip \<mapsto>
                r\<lparr> blocked := False, count := 1, windowStart := t0 \<rparr>) \<rparr>))"
proof -
  have restart: "fst (checkRequests ip (t0 # ts) rl) =
          replicate (nat (maxRequests rl)) \<lparr> allowed = True, retryAfter = None \<rparr> @
          [\<lparr> allowed = False,
             retryAfter = Some (ceilSeconds (Finite
               (min (baseBlockDurationMs rl * 2 ^ nat (violations q)) 3600000))) \<rparr>]
        \<and> map_option (\<lambda>r. (blocked r, violations r, blockExpires r))
            (requests (snd (checkRequests ip (t0 # ts) rl)) ip) =
            Some (True, violations q + 1,
                  Finite (last (t0 # ts) +
                    min (baseBlockDurationMs rl * 2 ^ nat (violations q)) 3600000))"
    if eq: "checkRequest ip t0 rl =
              checkRequest ip t0 (rl\<lparr> requests := (requests rl)(ip \<mapsto> q) \<rparr>)"
      and q: "\<not> blocked q" "count q = 0" "windowStart q = t0" "0 \<le> violations q"
    for q
  proof -
    let ?rl = "rl\<lparr> requests := (requests rl)(ip \<mapsto> q) \<rparr>"
    have e: "checkRequests ip (t0 # ts) rl = checkRequests ip (t0 # ts) ?rl"
      using eq by simp
    have run: "fst (checkRequests ip (t0 # ts) ?rl) =
           replicate (length (t0 # ts) - 1) \<lparr> allowed = True, retryAfter = None \<rparr> @
           [\<lparr> allowed = False,
              retryAfter = Some (ceilSeconds (Finite
                (min (baseBlockDurationMs ?rl * 2 ^ nat (violations q)) 3600000))) \<rparr>]
         \<and> requests (snd (checkRequests ip (t0 # ts) ?rl)) ip =
             Some (q\<lparr> count := maxRequests ?rl + 1, violations := violations q + 1,
                    blocked := True,
                    blockExpires := Finite
                      (last (t0 # ts) +
                        min (baseBlockDurationMs ?rl * 2 ^ nat (violations q)) 3600000) \<rparr>)"
      using assms q by (intro checkRequests_unblocked) auto
    show ?thesis using run assms(4) unfolding e by simp
  qed
  show ?thesis
  proof (intro conjI impI allI)
    assume none: "requests rl ip = None"
    let ?q = "\<lparr> count = 0, windowStart = t0, blocked = False, blockExpires = Finite 0,
                violations = 0 \<rparr>"
    from restart [of ?q, OF checkRequest_fresh [OF none]]
    show "fst (checkRequests ip (t0 # ts) rl) =
          replicate (nat (maxRequests rl)) \<lparr> allowed = True, retryAfter = None \<rparr> @
          [\<lparr> allowed = False,
             retryAfter = Some (ceilSeconds (Finite (min (baseBlockDurationMs rl) 3600000))) \<rparr>]"
      and "map_option (\<lambda>r. (blocked r, violations r, blockExpires r))
            (requests (snd (checkRequests ip (t0 # ts) rl)) ip) =
            Some (True, 1, Finite (last (t0 # ts) + min (baseBlockDurationMs rl) 3600000))"
      by simp_all
  next
    fix r us
    assume a: "requests rl ip = Some r \<and> \<not> blocked r \<and> 0 \<le> violations r \<and> us \<noteq> []
            \<and> count r + int (length us) = maxRequests rl + 1
            \<and> (\<forall>u\<in>set us. u - windowStart r \<le> windowMs rl)"
    have run: "fst (checkRequests ip us rl) =
           replicate (length us - 1) \<lparr> allowed = True, retryAfter = None \<rparr> @
           [\<lparr> allowed = False,
              retryAfter = Some (ceilSeconds (Finite
                (min (baseBlockDurationMs rl * 2 ^ nat (violations r)) 3600000))) \<rparr>]
         \<and> requests (snd (checkRequests ip us rl)) ip =
             Some (r\<lparr> count := maxRequests rl + 1, violations := violations r + 1,
                    blocked := True,
                    blockExpires := Finite
                      (last us + min (baseBlockDurationMs rl * 2 ^ nat (violations r)) 3600000) \<rparr>)"
      using a assms(1) by (intro checkRequests_unblocked) auto
    from run show "fst (checkRequests ip us rl) =
          replicate (length us - 1) \<lparr> allowed = True, retryAfter = None \<rparr> @
          [\<lparr> allowed = False,
             retryAfter = Some (ceilSeconds (Finite
               (min (baseBlockDurationMs rl * 2 ^ nat (violations r)) 3600000))) \<rparr>]"
      by simp
    from run show "map_option (\<lambda>r. (blocked r, violations r, blockExpires r))
            (requests (snd (checkRequests ip us rl)) ip) =
            Some (True, violations r + 1,
                  Finite (last us + min (baseBlockDurationMs rl * 2 ^ nat (violations r)) 3600000))"
      by simp
  next
    fix r
    assume a: "requests rl ip = Some r \<and> \<not> blocked r \<and> 0 \<le> violations r
            \<and> windowMs rl < t0 - windowStart r"
    let ?q = "r\<lparr> count := 0, windowStart := t0,
                violations := (if violations r > 0 then violations r - 1 else violations r) \<rparr>"
    have v: "violations ?q = max 0 (violations r - 1)"
      using a by auto
    have n: "nat (max 0 (violations r - 1)) = nat (violations r - 1)"
      by simp
    from restart [of ?q, OF checkRequest_window_expired [of rl ip r t0]] a assms(2)
    have "fst (checkRequests ip (t0 # ts) rl) =
          replicate (nat (maxRequests rl)) \<lparr> allowed = True, retryAfter = None \<rparr> @
          [\<lparr> allowed = False,
             retryAfter = Some (ceilSeconds (Finite
               (min (baseBlockDurationMs rl * 2 ^ nat (violations ?q)) 3600000))) \<rparr>]
        \<and> map_option (\<lambda>r. (blocked r, violations r, blockExpires r))
            (requests (snd (checkRequests ip (t0 # ts) rl)) ip) =
            Some (True, violations ?q + 1,
                  Finite (last (t0 # ts) +
                    min (baseBlockDurationMs rl * 2 ^ nat (violations ?q)) 3600000))"
      by simp
    then show "fst (checkRequests ip (t0 # ts) rl) =
          replicate (nat (maxRequests rl)) \<lparr> allowed = True, retryAfter = None \<rparr> @
          [\<lparr> allowed = False,
             retryAfter = Some (ceilSeconds (Finite
               (min (baseBlockDurationMs rl * 2 ^ nat (violations r - 1)) 3600000))) \<rparr>]"
      and "map_option (\<lambda>r. (blocked r, violations r, blockExpires r))
            (requests (snd (checkRequests ip (t0 # ts) rl)) ip) =
            Some (True, max 0 (violations r - 1) + 1,
                  Finite (last (t0 # ts) +
                    min (baseBlockDurationMs rl * 2 ^ nat (violations r - 1)) 3600000))"
      unfolding v n by blast+
  next
    fix r
    assume a: "requests rl ip = Some r \<and> blocked r \<and> \<not> lessNumber t0 (blockExpires r)
            \<and> 0 \<le> violations r"
    let ?q = "r\<lparr> blocked := False, count := 0, windowStart := t0 \<rparr>"
    from restart [of ?q, OF checkRequest_expired [of rl ip r t0]] a
    show "fst (checkRequests ip (t0 # ts) rl) =
          replicate (nat (maxRequests rl)) \<lparr> allowed = True, retryAfter = None \<rparr> @
          [\<lparr> allowed = False,
             retryAfter = Some (ceilSeconds (Finite
               (min (baseBlockDurationMs rl * 2 ^ nat (violations r)) 3600000))) \<rparr>]"
      and "map_option (\<lambda>r. (blocked r, violations r, blockExpires r))
            (requests (snd (checkRequests ip (t0 # ts) rl)) ip) =
            Some (True, violations r + 1,
                  Finite (last (t0 # ts) +
                    min (baseBlockDurationMs rl * 2 ^ nat (violations r)) 3600000))"
      by simp_all
  next
    fix r now
    assume "requests rl ip = Some r \<and> blocked r \<and> lessNumber now (blockExpires r)"
    then show "checkRequest ip now rl =
          (\<lparr> allowed = False,
             retryAfter = Some (ceilSeconds (minusNumber (blockExpires r) now)) \<rparr>, rl)"
      using checkRequest_blocked by simp
  next
    fix r
    assume a: "requests rl ip = Some r \<and> blocked r \<and> \<not> lessNumber t0 (blockExpires r)
            \<and> 1 \<le> maxRequests rl"
    let ?r = "r\<lparr> blocked := False, count := 0, windowStart := t0 \<rparr>"
    let ?rl = "rl\<lparr> requests := (requests rl)(ip \<mapsto> ?r) \<rparr>"
    have "checkRequest ip t0 rl = checkRequest ip t0 ?rl"
      using checkRequest_expired [of rl ip r t0] a by simp
    also have "\<dots> = (\<lparr> allowed = True, retryAfter = None \<rparr>,
        ?rl\<lparr> requests := (requests ?rl)(ip \<mapsto> ?r\<lparr> count := count ?r + 1 \<rparr>) \<rparr>)"
      using assms(2) a by (intro checkRequest_allowed_step) auto
    finally show "checkRequest ip t0 rl =
          (\<lparr> allowed = True, retryAfter = None \<rparr>,
           rl\<lparr> requests := (requests rl)(ip \<mapsto>
                r\<lparr> blocked := False, count := 1, windowStart := t0 \<rparr>) \<rparr>)"
      by (cases r) simp
  qed
qed

text \<open>
  With \<open>maxRequests = 2\<close> and the default base of 60 s: the third call is denied for 60 s;
  a call 1.5 s into a block that ends at 60002 is told to retry after 59 s; after the
  block has expired the third call within a window is denied for 120 s.
\<close>

theorem checkRequest_backoff_witness:
  "fst (checkRequests ''10.0.0.1'' [0, 1, 2] exLimiter) =
     [\<lparr> allowed = True, retryAfter = None \<rparr>, \<lparr> allowed = True, retryAfter = None \<rparr>,
      \<lparr> allowed = False, retryAfter = Some (Finite 60) \<rparr>]
   \<and> map_option (\<lambda>r. (blocked r, violations r, blockExpires r))
        (requests (snd (checkRequests ''10.0.0.1'' [0, 1, 2] exLimiter)) ''10.0.0.1'') =
        Some (True, 1, Finite 60002)
   \<and> fst (checkRequests ''10.0.0.1'' [5] exCounted) =
     [\<lparr> allowed = False, retryAfter = Some (Finite 120) \<rparr>]
   \<and> fst (checkRequests ''10.0.0.1'' [100000, 100001, 100002] exCounted) =
     [\<lparr> allowed = True, retryAfter = None \<rparr>, \<lparr> allowed = True, retryAfter = None \<rparr>,
      \<lparr> allowed = False, retryAfter = Some (Finite 60) \<rparr>]
   \<and> fst (checkRequests ''10.0.0.1'' [70000, 70001, 70002] exBlocked) =
     [\<lparr> allowed = True, retryAfter = None \<rparr>, \<lparr> allowed = True, retryAfter = None \<rparr>,
      \<lparr> allowed = False, retryAfter = Some (Finite 120) \<rparr>]
   \<and> checkRequest ''10.0.0.1'' 1500 exBlocked =
        (\<lparr> allowed = False, retryAfter = Some (Finite 59) \<rparr>, exBlocked)
   \<and> checkRequest ''10.0.0.1'' 70000 exBlocked =
          (\<lparr> allowed = True, retryAfter = None \<rparr>,
           exBlocked\<lparr> requests := (requests exBlocked)(''10.0.0.1'' \<mapsto>
             \<lparr> count = 1, windowStart = 70000, blocked = False, blockExpires = Finite 60002,
               violations = 1 \<rparr>) \<rparr>)"
proof -
  have c1: "0 < baseBlockDurationMs exLimiter" "0 \<le> windowMs exLimiter"
    "0 \<le> maxRequests exLimiter" "length [1, 2 :: int] = nat (maxRequests exLimiter)"
    "\<forall>t\<in>set [1, 2 :: int]. t - 0 \<le> windowMs exLimiter"
    by (simp_all add: exLimiter_def exOptions_def newRateLimiter_def)
  have c2: "0 < baseBlockDurationMs exBlocked" "0 \<le> windowMs exBlocked"
    "0 \<le> maxRequests exBlocked" "length [70001, 70002 :: int] = nat (maxRequests exBlocked)"
    "\<forall>t\<in>set [70001, 70002 :: int]. t - 70000 \<le> windowMs exBlocked"
    by (simp_all add: exBlocked_def exLimiter_def exOptions_def newRateLimiter_def)
  have c3: "0 < baseBlockDurationMs exCounted" "0 \<le> windowMs exCounted"
    "0 \<le> maxRequests exCounted" "length [100001, 100002 :: int] = nat (maxRequests exCounted)"
    "\<forall>t\<in>set [100001, 100002 :: int]. t - 100000 \<le> windowMs exCounted"
    by (simp_all add: exCounted_def exLimiter_def exOptions_def newRateLimiter_def)
  have n: "requests exLimiter ''10.0.0.1'' = None"
    by (simp add: exLimiter_def newRateLimiter_def)
  have b: "requests exBlocked ''10.0.0.1'' =
      Some \<lparr> count = 3, windowStart = 0, blocked = True, blockExpires = Finite 60002,
             violations = 1 \<rparr>"
    by (simp add: exBlocked_def)
  have u: "requests exCounted ''10.0.0.1'' =
      Some \<lparr> count = 2, windowStart = 0, blocked = False, blockExpires = Finite 0,
             violations = 1 \<rparr>"
    by (simp add: exCounted_def)
  have m: "maxRequests exLimiter = 2" "baseBlockDurationMs exLimiter = 60000"
    "maxRequests exBlocked = 2" "baseBlockDurationMs exBlocked = 60000"
    "maxRequests exCounted = 2" "baseBlockDurationMs exCounted = 60000"
    "windowMs exCounted = 60000"
    by (simp_all add: exCounted_def exBlocked_def exLimiter_def exOptions_def newRateLimiter_def)
  note w1 = checkRequest_backoff [OF c1, of "''10.0.0.1''"]
  note w2 = checkRequest_backoff [OF c2, of "''10.0.0.1''"]
  note w3 = checkRequest_backoff [OF c3, of "''10.0.0.1''"]
  have p1: "fst (checkRequests ''10.0.0.1'' [0, 1, 2] exLimiter) =
     [\<lparr> allowed = True, retryAfter = None \<rparr>, \<lparr> allowed = True, retryAfter = None \<rparr>,
      \<lparr> allowed = False, retryAfter = Some (Finite 60) \<rparr>]
   \<and> map_option (\<lambda>r. (blocked r, violations r, blockExpires r))
        (requests (snd (checkRequests ''10.0.0.1'' [0, 1, 2] exLimiter)) ''10.0.0.1'') =
        Some (True, 1, Finite 60002)"
    using w1 [THEN conjunct1] n m by (simp del: checkRequests.simps add: numeral_2_eq_2)
  have p2: "fst (checkRequests ''10.0.0.1'' [5] exCounted) =
     [\<lparr> allowed = False, retryAfter = Some (Finite 120) \<rparr>]"
    using w3 [THEN conjunct2, THEN conjunct1, rule_format,
        of "\<lparr> count = 2, windowStart = 0, blocked = False, blockExpires = Finite 0,
             violations = 1 \<rparr>" "[5]"] u m
    by (simp del: checkRequests.simps)
  have p3: "fst (checkRequests ''10.0.0.1'' [100000, 100001, 100002] exCounted) =
     [\<lparr> allowed = True, retryAfter = None \<rparr>, \<lparr> allowed = True, retryAfter = None \<rparr>,
      \<lparr> allowed = False, retryAfter = Some (Finite 60) \<rparr>]"
    using w3 [THEN conjunct2, THEN conjunct2, THEN conjunct1] u m
    by (simp del: checkRequests.simps add: numeral_2_eq_2)
  have p4: "fst (checkRequests ''10.0.0.1'' [70000, 70001, 70002] exBlocked) =
     [\<lparr> allowed = True, retryAfter = None \<rparr>, \<lparr> allowed = True, retryAfter = None \<rparr>,
      \<lparr> allowed = False, retryAfter = Some (Finite 120) \<rparr>]"
    using w2 [THEN conjunct2, THEN conjunct2, THEN conjunct2, THEN conjunct1] b m
    by (simp del: checkRequests.simps add: numeral_2_eq_2)
  have p5: "checkRequest ''10.0.0.1'' 1500 exBlocked =
        (\<lparr> allowed = False, retryAfter = Some (Finite 59) \<rparr>, exBlocked)"
    using w2 [THEN conjunct2, THEN conjunct2, THEN conjunct2, THEN conjunct2, THEN conjunct1,
        rule_format, of _ 1500] b
    by simp
  have p6: "checkRequest ''10.0.0.1'' 70000 exBlocked =
          (\<lparr> allowed = True, retryAfter = None \<rparr>,
           exBlocked\<lparr> requests := (requests exBlocked)(''10.0.0.1'' \<mapsto>
             \<lparr> count = 1, windowStart = 70000, blocked = False, blockExpires = Finite 60002,
               violations = 1 \<rparr>) \<rparr>)"
    using w2 [THEN conjunct2, THEN conjunct2, THEN conjunct2, THEN conjunct2, THEN conjunct2]
      b m
    by (simp del: checkRequests.simps)
  show ?thesis using p1 p2 p3 p4 p5 p6 by (simp del: checkRequests.simps)
qed

section \<open>Signaling core: evaluation of the examples\<close>

lemma generateSessionId_rndA: "generateSessionId rndA = sidA"
  by (simp add: generateSessionId_def rndA_def charAt_def chars_def sidA_def)

lemma generateSessionId_rndB: "generateSessionId rndB = sidB"
  by (simp add: generateSessionId_def rndB_def charAt_def chars_def sidB_def)

lemmas ex_defs = handleMessage_def dispatch_def checkRateLimit_def exCore_def newSignalingCore_def
     registerMsg_def connectMsg_def readyMsg_def offerMsg_def emptyMessage_def handleServerRegister_def handleConnectRequest_def
     handleSessionReady_def forwardSignalingMessage_def handleDisconnect_def clearTimeout_def
     timerFires_def fallback_def generateSessionId_rndA asciiUpper_def asciiUpperChar_def getServer_def Let_def sendError_def

lemma asciiUpper_aaa: "asciiUpper ''aaa'' = ''AAA''" "asciiUpper ''Aaa'' = ''AAA''" "asciiUpper ''AAA'' = ''AAA''"
  by (simp_all add: asciiUpper_def asciiUpperChar_def)

lemma registerMsg_fields:
  "remoteId (registerMsg x ice) = Some x" "iceServers (registerMsg x ice) = Some ice"
  by (simp_all add: registerMsg_def emptyMessage_def)

lemma exRegistered_facts:
  "servers exRegistered ''AAA'' = Some 0"
  "heap exRegistered 0 = Some \<lparr> sd_ws = 11, sd_iceServers = Some [stun1, turn2] \<rparr>"
  "nextRef exRegistered = 2"
  "nextTimer exRegistered = 1"
  "wsMetadata exRegistered 11 = Some \<lparr> md_type = Server, md_id = ''AAA'' \<rparr>"
  "wsMetadata exRegistered 14 = None"
  "servers exRegistered rid = Some 0 \<longrightarrow> rid = ''AAA''"
  by (simp_all add: exRegistered_def ex_defs)

lemma exPending_facts:
  "pendingClients exPending = [(sidA, \<lparr> pc_ws = 13, pc_remoteId = ''AAA'', pc_timeout = Some 1 \<rparr>)]"
  "clients exPending = []"
  "wsMetadata exPending 11 = Some \<lparr> md_type = Server, md_id = ''AAA'' \<rparr>"
  "wsMetadata exPending 12 = Some \<lparr> md_type = Server, md_id = ''BBB'' \<rparr>"
  "wsMetadata exPending 13 = Some \<lparr> md_type = Client, md_id = sidA \<rparr>"
  "timers exPending 1 = Some \<lparr> fb_sessionId = sidA, fb_remoteId = ''AAA'', fb_serverData = 0 \<rparr>"
  "servers exPending ''AAA'' = Some 0"
  "heap exPending 0 = Some \<lparr> sd_ws = 11, sd_iceServers = Some [stun1, turn2] \<rparr>"
  by (simp_all add: exPending_def ex_defs)

lemma exActive_facts:
  "clients exActive = [(sidA, \<lparr> cd_ws = 13, cd_remoteId = ''AAA'' \<rparr>)]"
  "pendingClients exActive = []"
  "wsMetadata exActive 11 = Some \<lparr> md_type = Server, md_id = ''AAA'' \<rparr>"
  "wsMetadata exActive 12 = Some \<lparr> md_type = Server, md_id = ''BBB'' \<rparr>"
  "wsMetadata exActive 13 = Some \<lparr> md_type = Client, md_id = sidA \<rparr>"
  "servers exActive ''AAA'' = Some 0"
  "heap exActive 0 = Some \<lparr> sd_ws = 11, sd_iceServers = Some [stun1, turn2] \<rparr>"
  by (simp_all add: exActive_def ex_defs sidA_def)


lemma exTwoIds_facts:
  "servers exTwoIds ''AAA'' = Some 0"
  "heap exTwoIds 0 = Some \<lparr> sd_ws = 21, sd_iceServers = Some [stun1] \<rparr>"
  "wsMetadata exTwoIds 21 = Some \<lparr> md_type = Server, md_id = ''BBB'' \<rparr>"
  by (simp_all add: exTwoIds_def ex_defs)

lemma exCollision_facts:
  "pendingClients exCollision =
     [(sidA, \<lparr> pc_ws = 15, pc_remoteId = ''AAA'', pc_timeout = Some 2 \<rparr>)]"
  "clients exCollision = [(sidA, \<lparr> cd_ws = 13, cd_remoteId = ''AAA'' \<rparr>)]"
  "wsMetadata exCollision 15 = Some \<lparr> md_type = Client, md_id = sidA \<rparr>"
  "servers exCollision ''AAA'' = Some 0"
  "heap exCollision 0 = Some \<lparr> sd_ws = 11, sd_iceServers = Some [stun1, turn2] \<rparr>"
  by (simp_all add: exCollision_def ex_defs sidA_def)

section \<open>Signaling core: the paths of registration and connect\<close>

lemma holds_registration_iff:
  "(case wsMetadata s ws of Some md \<Rightarrow> md_type md = Server \<and> md_id md = rid | None \<Rightarrow> False)
     = (wsMetadata s ws = Some \<lparr> md_type = Server, md_id = rid \<rparr>)"
proof (cases "wsMetadata s ws")
  case None
  then show ?thesis by simp
next
  case (Some md)
  then show ?thesis by (cases md) auto
qed

lemma handleServerRegister_missing:
  assumes "remoteId m = None \<or> (\<exists>x. remoteId m = Some x \<and> toUpperCase x = [])"
  shows "handleServerRegister toUpperCase ws m s = (s, [sendError ws ''Remote ID required''])"
  using assms by (auto simp: handleServerRegister_def)

lemma handleServerRegister_refresh:
  assumes "remoteId m = Some x" and "toUpperCase x = rid" and "rid \<noteq> []"
    and "wsMetadata s ws = Some \<lparr> md_type = Server, md_id = rid \<rparr>"
  shows "handleServerRegister toUpperCase ws m s =
     ((case servers s rid of
         Some r \<Rightarrow>
           (case heap s r of
              Some e \<Rightarrow>
                (case iceServers m of
                   Some ice \<Rightarrow> s\<lparr> heap := (heap s)(r \<mapsto> e\<lparr> sd_iceServers := Some ice \<rparr>) \<rparr>
                 | None \<Rightarrow> s)
            | None \<Rightarrow> s)
       | None \<Rightarrow> s),
      [Send ws ((emptyMessage ''registered'')\<lparr> remoteId := Some rid \<rparr>)])"
  using assms by (simp add: handleServerRegister_def)

lemma handleServerRegister_install:
  assumes "remoteId m = Some x" and "toUpperCase x = rid" and "rid \<noteq> []"
    and "wsMetadata s ws \<noteq> Some \<lparr> md_type = Server, md_id = rid \<rparr>"
  shows "handleServerRegister toUpperCase ws m s =
     (s\<lparr> heap := (heap s)(nextRef s \<mapsto> \<lparr> sd_ws = ws, sd_iceServers = iceServers m \<rparr>),
         nextRef := nextRef s + 1,
         servers := (servers s)(rid \<mapsto> nextRef s),
         wsMetadata :=
           (case getServer s rid of
              Some e \<Rightarrow> if sd_ws e \<noteq> ws then (wsMetadata s)(sd_ws e := None) else wsMetadata s
            | None \<Rightarrow> wsMetadata s)(ws \<mapsto> \<lparr> md_type = Server, md_id = rid \<rparr>) \<rparr>,
      (case getServer s rid of
         Some e \<Rightarrow>
           if sd_ws e \<noteq> ws then [Close (sd_ws e) 4000 ''Replaced by new connection''] else []
       | None \<Rightarrow> []) @ [Send ws ((emptyMessage ''registered'')\<lparr> remoteId := Some rid \<rparr>)])"
proof -
  from assms(4) have nh: "\<not> (case wsMetadata s ws of
                     Some md \<Rightarrow> md_type md = Server \<and> md_id md = rid
                   | None \<Rightarrow> False)"
    by (simp add: holds_registration_iff)
  show ?thesis
  proof (cases "getServer s rid")
    case None
    with assms(1-3) nh show ?thesis
      by (simp add: handleServerRegister_def Let_def)
  next
    case (Some e)
    with assms(1-3) nh show ?thesis
      by (cases "sd_ws e = ws") (simp_all add: handleServerRegister_def Let_def)
  qed
qed

lemma handleServerRegister_cases:
  obtains (missing) "remoteId m = None \<or> (\<exists>x. remoteId m = Some x \<and> toUpperCase x = [])"
    | (refresh) x where "remoteId m = Some x" "toUpperCase x \<noteq> []"
        "wsMetadata s w = Some \<lparr> md_type = Server, md_id = toUpperCase x \<rparr>"
    | (install) x where "remoteId m = Some x" "toUpperCase x \<noteq> []"
        "wsMetadata s w \<noteq> Some \<lparr> md_type = Server, md_id = toUpperCase x \<rparr>"
  by (cases "remoteId m") auto

lemma handleServerRegister_frame:
  "pendingClients (fst (handleServerRegister toUpperCase w m s)) = pendingClients s
   \<and> clients (fst (handleServerRegister toUpperCase w m s)) = clients s
   \<and> timers (fst (handleServerRegister toUpperCase w m s)) = timers s
   \<and> wsClientIp (fst (handleServerRegister toUpperCase w m s)) = wsClientIp s
   \<and> rateLimiter (fst (handleServerRegister toUpperCase w m s)) = rateLimiter s
   \<and> nextTimer (fst (handleServerRegister toUpperCase w m s)) = nextTimer s"
proof (cases rule: handleServerRegister_cases
      [where toUpperCase = toUpperCase and m = m and s = s and w = w])
  case missing
  from handleServerRegister_missing [where toUpperCase = toUpperCase and ws = w and s = s, OF this] show ?thesis by simp
next
  case (refresh x)
  from handleServerRegister_refresh [where toUpperCase = toUpperCase, OF refresh(1) refl refresh(2,3)] show ?thesis
    by (simp split: option.splits)
next
  case (install x)
  from handleServerRegister_install [where toUpperCase = toUpperCase, OF install(1) refl install(2,3)] show ?thesis
    by simp
qed

lemma handleConnectRequest_success:
  assumes "remoteId m = Some x" and "toUpperCase x = rid" and "rid \<noteq> []"
    and "servers s rid = Some r" and "heap s r = Some sd"
  shows "handleConnectRequest toUpperCase c m now rnd s =
     (s\<lparr> timers := (timers s)(nextTimer s \<mapsto>
            \<lparr> fb_sessionId = generateSessionId rnd, fb_remoteId = rid, fb_serverData = r \<rparr>),
         nextTimer := nextTimer s + 1,
         pendingClients := AList.update (generateSessionId rnd)
            \<lparr> pc_ws = c, pc_remoteId = rid, pc_timeout = Some (nextTimer s) \<rparr> (pendingClients s),
         wsMetadata := (wsMetadata s)(c \<mapsto> \<lparr> md_type = Client, md_id = generateSessionId rnd \<rparr>) \<rparr>,
      [Send (sd_ws sd)
         ((emptyMessage ''client-connected'')\<lparr> sessionId := Some (generateSessionId rnd) \<rparr>)])"
  using assms by (simp add: handleConnectRequest_def Let_def)


section \<open>Well-formed states\<close>

lemma forwardSignalingMessage_state: "fst (forwardSignalingMessage ws m s) = s"
proof (cases "wsMetadata s ws")
  case None
  then show ?thesis by (simp add: forwardSignalingMessage_def)
next
  case (Some md)
  show ?thesis
  proof (cases "md_type md")
    case Server
    with Some show ?thesis
      by (simp add: forwardSignalingMessage_def split: option.splits)
  next
    case Client
    with Some show ?thesis
      by (simp add: forwardSignalingMessage_def Let_def split: option.splits)
  qed
qed

lemma wellFormed_new: "wellFormed (newSignalingCore rl)"
  by (simp add: wellFormed_def newSignalingCore_def)

lemma wellFormed_frame:
  assumes "wellFormed s" and "servers s' = servers s" and "heap s' = heap s"
    and "nextRef s' = nextRef s"
    and "\<And>ws md. wsMetadata s' ws = Some md \<Longrightarrow> md_type md = Server \<Longrightarrow>
           wsMetadata s ws = Some md"
  shows "wellFormed s'"
  using assms unfolding wellFormed_def getServer_def by metis

lemma wellFormed_owner:
  assumes "wellFormed s" and "getServer s rid = Some old" and "sd_ws old \<noteq> ws"
  shows "wsMetadata s ws \<noteq> Some \<lparr> md_type = Server, md_id = rid \<rparr>"
proof
  assume "wsMetadata s ws = Some \<lparr> md_type = Server, md_id = rid \<rparr>"
  with assms(1) have "map_option sd_ws (getServer s rid) = Some ws"
    unfolding wellFormed_def by fastforce
  with assms(2,3) show False by simp
qed

lemma wellFormed_refresh:
  assumes "wellFormed s" and "heap s r = Some e"
  shows "wellFormed (s\<lparr> heap := (heap s)(r \<mapsto> e\<lparr> sd_iceServers := ice \<rparr>) \<rparr>)"
proof -
  let ?s' = "s\<lparr> heap := (heap s)(r \<mapsto> e\<lparr> sd_iceServers := ice \<rparr>) \<rparr>"
  have g: "map_option sd_ws (getServer ?s' rid) = map_option sd_ws (getServer s rid)" for rid
    using assms(2) by (cases "servers s rid") (auto simp: getServer_def)
  have h: "heap ?s' q \<noteq> None" if "heap s q \<noteq> None" for q
    using that by simp
  show ?thesis
    using assms(1) unfolding wellFormed_def g
    by (simp add: h)
qed

lemma wellFormed_install:
  assumes wf: "wellFormed s"
  shows "wellFormed
     (s\<lparr> heap := (heap s)(nextRef s \<mapsto> \<lparr> sd_ws = ws, sd_iceServers = ice \<rparr>),
         nextRef := nextRef s + 1,
         servers := (servers s)(rid \<mapsto> nextRef s),
         wsMetadata :=
           (case getServer s rid of
              Some e \<Rightarrow> if sd_ws e \<noteq> ws then (wsMetadata s)(sd_ws e := None) else wsMetadata s
            | None \<Rightarrow> wsMetadata s)(ws \<mapsto> \<lparr> md_type = Server, md_id = rid \<rparr>) \<rparr>)"
    (is "wellFormed ?s'")
proof -
  let ?M = "case getServer s rid of
              Some e \<Rightarrow> if sd_ws e \<noteq> ws then (wsMetadata s)(sd_ws e := None) else wsMetadata s
            | None \<Rightarrow> wsMetadata s"
  from wf have lt: "\<And>k r. servers s k = Some r \<Longrightarrow> r < nextRef s"
    and al: "\<And>k r. servers s k = Some r \<Longrightarrow> heap s r \<noteq> None"
    and inj: "\<And>k k' r. servers s k = Some r \<Longrightarrow> servers s k' = Some r \<Longrightarrow> k = k'"
    and own: "\<And>w md. wsMetadata s w = Some md \<Longrightarrow> md_type md = Server \<Longrightarrow>
                map_option sd_ws (getServer s (md_id md)) = Some w"
    unfolding wellFormed_def by blast+
  have p1: "r < nextRef ?s' \<and> heap ?s' r \<noteq> None" if "servers ?s' k = Some r" for k r
  proof (cases "k = rid")
    case True
    with that show ?thesis by simp
  next
    case False
    with that have o: "servers s k = Some r" by simp
    from lt [OF o] al [OF o] show ?thesis by simp
  qed
  have p2: "k = k'" if "servers ?s' k = Some r" "servers ?s' k' = Some r" for k k' r
  proof (cases "k = rid"; cases "k' = rid")
    assume "k = rid" "k' = rid"
    then show ?thesis by simp
  next
    assume a: "k = rid" "k' \<noteq> rid"
    with that have "r = nextRef s" "servers s k' = Some r" by simp_all
    with lt [of k' r] show ?thesis by simp
  next
    assume a: "k \<noteq> rid" "k' = rid"
    with that have "r = nextRef s" "servers s k = Some r" by simp_all
    with lt [of k r] show ?thesis by simp
  next
    assume a: "k \<noteq> rid" "k' \<noteq> rid"
    with that have "servers s k = Some r" "servers s k' = Some r" by simp_all
    then show ?thesis by (rule inj)
  qed
  have p3: "map_option sd_ws (getServer ?s' (md_id md)) = Some w"
    if m: "wsMetadata ?s' w = Some md" and t: "md_type md = Server" for w md
  proof (cases "w = ws")
    case True
    with m have "md = \<lparr> md_type = Server, md_id = rid \<rparr>" by simp
    with True show ?thesis by (simp add: getServer_def)
  next
    case False
    with m have mM: "?M w = Some md" by simp
    then have ms: "wsMetadata s w = Some md"
      by (auto split: option.splits if_splits)
    from own [OF ms t] obtain sd where g: "getServer s (md_id md) = Some sd" and w: "sd_ws sd = w"
      by auto
    have ne: "md_id md \<noteq> rid"
    proof
      assume "md_id md = rid"
      with g have g': "getServer s rid = Some sd" by simp
      show False
      proof (cases "sd_ws sd = ws")
        case True
        with w False show False by simp
      next
        case False
        with g' w mM show False by simp
      qed
    qed
    from g obtain r where sr: "servers s (md_id md) = Some r" and hr: "heap s r = Some sd"
      by (auto simp: getServer_def bind_eq_Some_conv)
    from lt [OF sr] have "r \<noteq> nextRef s" by simp
    with ne sr hr w show ?thesis by (simp add: getServer_def)
  qed
  show ?thesis
    unfolding wellFormed_def using p1 p2 p3 by blast
qed

lemma wellFormed_unregister:
  assumes wf: "wellFormed s" and m: "wsMetadata s ws = Some md" and t: "md_type md = Server"
  shows "wellFormed (s\<lparr> servers := (servers s)(md_id md := None),
                         wsMetadata := (wsMetadata s)(ws := None) \<rparr>)"
    (is "wellFormed ?s'")
proof -
  from wf have lt: "\<And>k r. servers s k = Some r \<Longrightarrow> r < nextRef s \<and> heap s r \<noteq> None"
    and inj: "\<And>k k' r. servers s k = Some r \<Longrightarrow> servers s k' = Some r \<Longrightarrow> k = k'"
    and own: "\<And>w md. wsMetadata s w = Some md \<Longrightarrow> md_type md = Server \<Longrightarrow>
                map_option sd_ws (getServer s (md_id md)) = Some w"
    unfolding wellFormed_def by blast+
  have p1: "r < nextRef ?s' \<and> heap ?s' r \<noteq> None" if "servers ?s' k = Some r" for k r
    using that lt [of k r] by (simp split: if_splits)
  have p2: "k = k'" if "servers ?s' k = Some r" "servers ?s' k' = Some r" for k k' r
    using that inj [of k r k'] by (simp split: if_splits)
  have p3: "map_option sd_ws (getServer ?s' (md_id md')) = Some w"
    if m': "wsMetadata ?s' w = Some md'" and t': "md_type md' = Server" for w md'
  proof -
    from m' have nw: "w \<noteq> ws" and ms: "wsMetadata s w = Some md'" by (simp_all split: if_splits)
    from own [OF ms t'] have o': "map_option sd_ws (getServer s (md_id md')) = Some w" .
    from own [OF m t] have o: "map_option sd_ws (getServer s (md_id md)) = Some ws" .
    from o o' nw have "md_id md' \<noteq> md_id md" by auto
    with o' show ?thesis by (simp add: getServer_def)
  qed
  show ?thesis
    unfolding wellFormed_def using p1 p2 p3 by blast
qed

lemma wellFormed_handleServerRegister:
  assumes "wellFormed s"
  shows "wellFormed (fst (handleServerRegister toUpperCase ws m s))"
proof (cases rule: handleServerRegister_cases
      [where toUpperCase = toUpperCase and m = m and s = s and w = ws])
  case missing
  from handleServerRegister_missing [where toUpperCase = toUpperCase and ws = ws and s = s, OF this] assms show ?thesis by simp
next
  case (refresh x)
  note eq = handleServerRegister_refresh [where toUpperCase = toUpperCase, OF refresh(1) refl refresh(2,3)]
  show ?thesis
  proof (cases "servers s (toUpperCase x)")
    case None
    with eq assms show ?thesis by simp
  next
    case (Some r)
    note r = this
    show ?thesis
    proof (cases "heap s r")
      case None
      with eq r assms show ?thesis by simp
    next
      case (Some e)
      show ?thesis
      proof (cases "iceServers m")
        case None
        with eq r Some assms show ?thesis by simp
      next
        case (Some ice)
        from wellFormed_refresh [OF assms \<open>heap s r = Some e\<close>, of "Some ice"] eq r
          \<open>heap s r = Some e\<close> Some
        show ?thesis by simp
      qed
    qed
  qed
next
  case (install x)
  from handleServerRegister_install [where toUpperCase = toUpperCase, OF install(1) refl install(2,3)]
    wellFormed_install [OF assms, where ws = ws and ice = "iceServers m" and rid = "toUpperCase x"]
  show ?thesis by simp
qed

lemma handleConnectRequest_registry:
  "servers (fst (handleConnectRequest toUpperCase ws m now rnd s)) = servers s
   \<and> heap (fst (handleConnectRequest toUpperCase ws m now rnd s)) = heap s
   \<and> nextRef (fst (handleConnectRequest toUpperCase ws m now rnd s)) = nextRef s
   \<and> (wsMetadata (fst (handleConnectRequest toUpperCase ws m now rnd s)) = wsMetadata s
      \<or> wsMetadata (fst (handleConnectRequest toUpperCase ws m now rnd s)) =
          (wsMetadata s)(ws \<mapsto> \<lparr> md_type = Client, md_id = generateSessionId rnd \<rparr>))"
proof (cases "remoteId m")
  case None
  then show ?thesis by (simp add: handleConnectRequest_def)
next
  case (Some x)
  note x = this
  show ?thesis
  proof (cases "toUpperCase x = []")
    case True
    with x show ?thesis by (simp add: handleConnectRequest_def)
  next
    case False
    show ?thesis
    proof (cases "Option.bind (servers s (toUpperCase x)) (\<lambda>r. map_option (Pair r) (heap s r))")
      case None
      note n = this
      show ?thesis
      proof (cases "wsClientIp s ws")
        case None
        with x False n show ?thesis by (simp add: handleConnectRequest_def Let_def)
      next
        case (Some ip)
        with x False n show ?thesis
          by (cases "ip = []"; cases "fst (recordFailedLookup ip now (rateLimiter s))")
            (simp_all add: handleConnectRequest_def Let_def split_def)
      qed
    next
      case (Some rsd)
      obtain r sd where rsd: "rsd = (r, sd)" by (cases rsd)
      from Some rsd have "servers s (toUpperCase x) = Some r" "heap s r = Some sd"
        by (auto simp: bind_eq_Some_conv)
      from handleConnectRequest_success
          [where toUpperCase = toUpperCase, OF x refl False this, of ws now rnd]
      show ?thesis by simp
    qed
  qed
qed

lemma wellFormed_handleConnectRequest:
  assumes "wellFormed s"
  shows "wellFormed (fst (handleConnectRequest toUpperCase ws m now rnd s))"
proof (rule wellFormed_frame [OF assms])
  fix w md
  assume a: "wsMetadata (fst (handleConnectRequest toUpperCase ws m now rnd s)) w = Some md"
    and t: "md_type md = Server"
  from handleConnectRequest_registry [of toUpperCase ws m now rnd s]
  have "wsMetadata (fst (handleConnectRequest toUpperCase ws m now rnd s)) = wsMetadata s
      \<or> wsMetadata (fst (handleConnectRequest toUpperCase ws m now rnd s)) =
          (wsMetadata s)(ws \<mapsto> \<lparr> md_type = Client, md_id = generateSessionId rnd \<rparr>)"
    by simp
  with a t show "wsMetadata s w = Some md" by (auto split: if_splits)
qed (simp_all add: handleConnectRequest_registry)

lemma handleSessionReady_registry:
  "servers (fst (handleSessionReady ws m s)) = servers s
   \<and> heap (fst (handleSessionReady ws m s)) = heap s
   \<and> nextRef (fst (handleSessionReady ws m s)) = nextRef s
   \<and> wsMetadata (fst (handleSessionReady ws m s)) = wsMetadata s"
  by (simp add: handleSessionReady_def Let_def split: option.splits)

lemma timerFires_registry:
  "servers (fst (timerFires t s)) = servers s
   \<and> heap (fst (timerFires t s)) = heap s
   \<and> nextRef (fst (timerFires t s)) = nextRef s
   \<and> wsMetadata (fst (timerFires t s)) = wsMetadata s"
  by (simp add: timerFires_def fallback_def split: option.splits)

lemma checkRateLimit_registry:
  "servers (fst (snd (checkRateLimit ws now s))) = servers s
   \<and> heap (fst (snd (checkRateLimit ws now s))) = heap s
   \<and> nextRef (fst (snd (checkRateLimit ws now s))) = nextRef s
   \<and> wsMetadata (fst (snd (checkRateLimit ws now s))) = wsMetadata s"
  by (simp add: checkRateLimit_def Let_def split_def split: option.splits)

lemma wellFormed_handleDisconnect:
  assumes "wellFormed s"
  shows "wellFormed (fst (handleDisconnect ws s))"
proof (cases "wsMetadata s ws")
  case None
  with assms show ?thesis by (simp add: handleDisconnect_def)
next
  case (Some md)
  have drop: "wellFormed s'"
    if "servers s' = servers s" "heap s' = heap s" "nextRef s' = nextRef s"
      "wsMetadata s' = (wsMetadata s)(ws := None)" for s' :: "'a SignalingCore"
    using that by (intro wellFormed_frame [OF assms]) (auto split: if_splits)
  show ?thesis
  proof (cases "md_type md")
    case Server
    show ?thesis
    proof (cases "case getServer s (md_id md) of Some serverData \<Rightarrow> sd_ws serverData = ws | None \<Rightarrow> False")
      case True
      let ?s1 = "s\<lparr> servers := (servers s)(md_id md := None),
                     wsMetadata := (wsMetadata s)(ws := None) \<rparr>"
      have w1: "wellFormed ?s1" by (rule wellFormed_unregister [OF assms Some Server])
      have "wellFormed (fst (handleDisconnect ws s))"
      proof (rule wellFormed_frame [OF w1])
        show "servers (fst (handleDisconnect ws s)) = servers ?s1"
          "heap (fst (handleDisconnect ws s)) = heap ?s1"
          "nextRef (fst (handleDisconnect ws s)) = nextRef ?s1"
          using Some Server True by (simp_all add: handleDisconnect_def Let_def split_def)
        fix w md'
        assume "wsMetadata (fst (handleDisconnect ws s)) w = Some md'"
        with Some Server True show "wsMetadata ?s1 w = Some md'"
          by (simp add: handleDisconnect_def Let_def split_def)
      qed
      then show ?thesis .
    next
      case False
      with Some Server show ?thesis
        by (intro drop) (simp_all add: handleDisconnect_def Let_def)
    qed
  next
    case Client
    with Some show ?thesis
      by (intro drop) (simp_all add: handleDisconnect_def Let_def split_def split: option.splits)
  qed
qed

lemma wellFormed_same_registry:
  assumes "wellFormed s" and "servers s' = servers s \<and> heap s' = heap s
     \<and> nextRef s' = nextRef s \<and> wsMetadata s' = wsMetadata s"
  shows "wellFormed s'"
  using assms by (intro wellFormed_frame [OF assms(1)]) simp_all

lemma wellFormed_dispatch:
  assumes "wellFormed s"
  shows "wellFormed (fst (dispatch toUpperCase ws m now rnd s))"
  using assms wellFormed_same_registry [OF assms handleSessionReady_registry [of ws m s]]
  by (simp add: dispatch_def wellFormed_handleServerRegister wellFormed_handleConnectRequest
      forwardSignalingMessage_state)

lemma wellFormed_handleMessage:
  assumes "wellFormed s"
  shows "wellFormed (fst (handleMessage toUpperCase ws m now rnd s))"
proof -
  have "wellFormed (fst (snd (checkRateLimit ws now s)))"
    by (rule wellFormed_same_registry [OF assms checkRateLimit_registry])
  from wellFormed_dispatch [OF this, of toUpperCase ws m now rnd] wellFormed_dispatch [OF assms, of toUpperCase ws m now rnd]
    this
  show ?thesis by (simp add: handleMessage_def split_def Let_def)
qed

lemma wellFormed_step:
  assumes "wellFormed s"
  shows "wellFormed (fst (step toUpperCase e s))"
proof (cases e)
  case (Message ws m now rnd)
  with assms show ?thesis by (simp add: wellFormed_handleMessage)
next
  case (Disconnect ws)
  with assms show ?thesis by (simp add: wellFormed_handleDisconnect)
next
  case (TimerFires t)
  with wellFormed_same_registry [OF assms timerFires_registry [of t s]] show ?thesis by simp
next
  case (SetClientIp ws ip)
  with assms show ?thesis
    by (auto intro: wellFormed_same_registry simp: setClientIp_def)
next
  case (Cleanup now)
  with assms show ?thesis by (auto intro: wellFormed_same_registry)
qed

lemma wellFormed_run:
  assumes "wellFormed s"
  shows "wellFormed (fst (run toUpperCase es s))"
  using assms
proof (induction es arbitrary: s)
  case Nil
  then show ?case by simp
next
  case (Cons e es)
  from Cons.IH [OF wellFormed_step [OF Cons.prems, of toUpperCase e]] show ?case
    by (simp add: split_def Let_def)
qed

lemma wellFormed_examples:
  "wellFormed exRegistered" "wellFormed exPending" "wellFormed exActive"
  unfolding exRegistered_def exPending_def exActive_def exCore_def
  by (intro wellFormed_run wellFormed_new)+

lemma wellFormed_exTwoIds: "wellFormed exTwoIds"
  unfolding exTwoIds_def exCore_def by (intro wellFormed_run wellFormed_new)

section \<open>Session completion\<close>

text \<open>
  Claim C1, as the code has it. A \<open>session-ready\<close> for a pending session from a
  connection whose identity is \<open>server\<close> promotes the session: the pending record is
  removed and the active session holds the client's connection and, as its remote id,
  the id of the calling connection's identity. That is neither a value of the message
  nor the remote id stored in the pending record, which it need not equal (see the
  counterexample below). The client is sent \<open>connected\<close> with that remote id and the
  \<open>iceServers\<close> of the message.
\<close>

theorem handleSessionReady_promotes:
  assumes "sessionId message = Some sid" and "sid \<noteq> []"
    and "map_of (pendingClients s) sid = Some pending"
    and "wsMetadata s ws = Some md" and "md_type md = Server"
  shows "map_of (clients (fst (handleSessionReady ws message s))) sid =
           Some \<lparr> cd_ws = pc_ws pending, cd_remoteId = md_id md \<rparr>
       \<and> map_of (pendingClients (fst (handleSessionReady ws message s))) sid = None
       \<and> snd (handleSessionReady ws message s) =
           [Send (pc_ws pending)
              ((emptyMessage ''connected'')
                 \<lparr> remoteId := Some (md_id md), sessionId := Some sid,
                   iceServers := iceServers message \<rparr>)]"
  using assms
  by (simp add: handleSessionReady_def Let_def update_conv' delete_conv')

text \<open>Server 11, registered as AAA, completes the session pending toward AAA.\<close>

theorem handleSessionReady_promotes_witness:
  "map_of (clients (fst (handleSessionReady 11 (readyMsg sidA [turn3]) exPending))) sidA =
           Some \<lparr> cd_ws = 13, cd_remoteId = ''AAA'' \<rparr>
       \<and> map_of (pendingClients (fst (handleSessionReady 11 (readyMsg sidA [turn3]) exPending))) sidA = None
       \<and> snd (handleSessionReady 11 (readyMsg sidA [turn3]) exPending) =
           [Send 13
              ((emptyMessage ''connected'')
                 \<lparr> remoteId := Some ''AAA'', sessionId := Some sidA,
                   iceServers := Some [turn3] \<rparr>)]"
proof -
  have h: "sessionId (readyMsg sidA [turn3]) = Some sidA" "sidA \<noteq> []"
    "map_of (pendingClients exPending) sidA = Some \<lparr> pc_ws = 13, pc_remoteId = ''AAA'', pc_timeout = Some 1 \<rparr>"
    "wsMetadata exPending 11 = Some \<lparr> md_type = Server, md_id = ''AAA'' \<rparr>"
    "md_type \<lparr> md_type = Server, md_id = ''AAA'' \<rparr> = Server"
    by (simp_all add: exPending_facts readyMsg_def emptyMessage_def sidA_def)
  show ?thesis
    using handleSessionReady_promotes [OF h] by (simp add: readyMsg_def emptyMessage_def)
qed

text \<open>
  Claim C1 as stated fails: the session of client 13 is pending toward AAA, server 12
  is registered as BBB, and after a \<open>session-ready\<close> from server 12 the active session
  is bound to BBB.
\<close>

theorem handleSessionReady_hijack_counterexample:
  "map_option pc_remoteId (map_of (pendingClients exPending) sidA) = Some ''AAA''
   \<and> map_option md_id (wsMetadata exPending 12) = Some ''BBB''
   \<and> map_option cd_remoteId
        (map_of (clients (fst (handleSessionReady 12 (readyMsg sidA [turn3]) exPending))) sidA) =
      Some ''BBB''"
  by (simp add: exPending_facts handleSessionReady_def readyMsg_def emptyMessage_def sidA_def Let_def)

text \<open>
  Claim C6, as the code has it. A \<open>session-ready\<close> with a session id is checked against
  the pending map first: when the id is not pending the call returns without any
  message, whatever the identity of the caller; when the id is pending and the caller's
  identity is not \<open>server\<close>, the caller is sent the error \<open>Not a registered server\<close>.
  In both cases the state is unchanged.
\<close>

theorem handleSessionReady_rejections:
  assumes "sessionId message = Some sid" and "sid \<noteq> []"
  shows "(map_of (pendingClients s) sid = None \<longrightarrow> handleSessionReady ws message s = (s, []))
       \<and> (map_of (pendingClients s) sid \<noteq> None
            \<and> (\<forall>md. wsMetadata s ws = Some md \<longrightarrow> md_type md \<noteq> Server) \<longrightarrow>
          handleSessionReady ws message s = (s, [sendError ws ''Not a registered server'']))"
  using assms by (auto simp: handleSessionReady_def split: option.splits)

text \<open>Client 13 sends \<open>session-ready\<close> for an unknown id and for its own pending id.\<close>

theorem handleSessionReady_rejections_witness:
  "handleSessionReady 13 (readyMsg ''ZZZZZZZZZZZZZZZZ'' [turn3]) exPending = (exPending, [])
   \<and> handleSessionReady 13 (readyMsg sidA [turn3]) exPending =
       (exPending, [sendError 13 ''Not a registered server''])"
proof -
  have a: "sessionId (readyMsg ''ZZZZZZZZZZZZZZZZ'' [turn3]) = Some ''ZZZZZZZZZZZZZZZZ''"
      "''ZZZZZZZZZZZZZZZZ'' \<noteq> []"
    by (simp_all add: readyMsg_def emptyMessage_def)
  have b: "sessionId (readyMsg sidA [turn3]) = Some sidA" "sidA \<noteq> []"
    by (simp_all add: readyMsg_def emptyMessage_def sidA_def)
  have n: "map_of (pendingClients exPending) ''ZZZZZZZZZZZZZZZZ'' = None"
    by (simp add: exPending_facts sidA_def)
  have p: "map_of (pendingClients exPending) sidA \<noteq> None"
     "\<forall>md. wsMetadata exPending 13 = Some md \<longrightarrow> md_type md \<noteq> Server"
    by (auto simp add: exPending_facts)
  show ?thesis
    using handleSessionReady_rejections [OF a, of exPending 13]
      handleSessionReady_rejections [OF b, of exPending 13] n p
    by blast
qed

text \<open>
  Claim C6 as stated fails: connection 13 has the identity \<open>client\<close>, and its
  \<open>session-ready\<close> for an id that is not pending is answered by nothing, not by the
  error \<open>Not a registered server\<close>.
\<close>

theorem handleSessionReady_not_a_server_counterexample:
  "map_option md_type (wsMetadata exPending 13) = Some Client
   \<and> snd (handleSessionReady 13 (readyMsg ''ZZZZZZZZZZZZZZZZ'' [turn3]) exPending) = []
   \<and> snd (handleSessionReady 13 (readyMsg ''ZZZZZZZZZZZZZZZZ'' [turn3]) exPending) \<noteq>
       [sendError 13 ''Not a registered server'']"
  by (simp add: exPending_facts handleSessionReady_def readyMsg_def emptyMessage_def sidA_def)





section \<open>The fallback and the cached ICE servers\<close>

text \<open>
  Claim C2, as the code has it. In a well-formed state, a \<open>connect-request\<close> for a
  registered remote id arms a
  timeout whose callback holds the registration object of that moment. When the
  timeout fires for the still pending session, the client is sent the \<open>iceServers\<close> that
  this object holds then. Fired at once, that is the list cached at connect-request
  time. After a registration message in between, it is still that list if the
  message installed a new registration (a replacement creates a new object), but it is
  the list of the message if the message was a refresh from the connection that holds
  the registration, because a refresh updates the object in place.
\<close>

theorem fallback_iceServers:
  assumes "remoteId message = Some x" and "toUpperCase x = rid" and "rid \<noteq> []"
    and "servers s rid = Some r" and "heap s r = Some sd" and "wellFormed s"
  shows "(let s1 = fst (handleConnectRequest toUpperCase c message now rnd s);
              sid = generateSessionId rnd; t = nextTimer s
          in timers s1 t = Some \<lparr> fb_sessionId = sid, fb_remoteId = rid, fb_serverData = r \<rparr>
           \<and> map_of (pendingClients s1) sid =
               Some \<lparr> pc_ws = c, pc_remoteId = rid, pc_timeout = Some t \<rparr>
           \<and> snd (timerFires t s1) = [Send c (connectedMsg rid sid (sd_iceServers sd))]
           \<and> snd (timerFires t (fst (handleServerRegister toUpperCase w m2 s1))) =
               [Send c (connectedMsg rid sid
                  (if map_option toUpperCase (remoteId m2) = Some rid
                      \<and> wsMetadata s1 w = Some \<lparr> md_type = Server, md_id = rid \<rparr>
                      \<and> iceServers m2 \<noteq> None
                   then iceServers m2 else sd_iceServers sd))])"
proof -
  define s1 where "s1 = fst (handleConnectRequest toUpperCase c message now rnd s)"
  define sid where "sid = generateSessionId rnd"
  define t where "t = nextTimer s"
  from assms(4,6) have lt: "r < nextRef s"
    and inj: "\<forall>rid'. servers s rid' = Some r \<longrightarrow> rid' = rid"
    unfolding wellFormed_def by blast+
  note eq = handleConnectRequest_success
      [where toUpperCase = toUpperCase, OF assms(1-5), of c now rnd]
  have c1: "timers s1 t = Some \<lparr> fb_sessionId = sid, fb_remoteId = rid, fb_serverData = r \<rparr>"
    and c2: "map_of (pendingClients s1) sid = Some \<lparr> pc_ws = c, pc_remoteId = rid, pc_timeout = Some t \<rparr>"
    and hp: "heap s1 = heap s" and sv: "servers s1 = servers s" and nr: "nextRef s1 = nextRef s"
    by (simp_all add: s1_def sid_def t_def eq update_conv')
  have c3: "snd (timerFires t s1) = [Send c (connectedMsg rid sid (sd_iceServers sd))]"
    using c1 c2 hp assms(5) by (simp add: timerFires_def fallback_def connectedMsg_def)
  let ?s2 = "fst (handleServerRegister toUpperCase w m2 s1)"
  let ?refresh = "map_option toUpperCase (remoteId m2) = Some rid
                      \<and> wsMetadata s1 w = Some \<lparr> md_type = Server, md_id = rid \<rparr>
                      \<and> iceServers m2 \<noteq> None"
  have hr: "Option.bind (heap ?s2 r) sd_iceServers =
              (if ?refresh then iceServers m2 else sd_iceServers sd)"
  proof (cases rule: handleServerRegister_cases
      [where toUpperCase = toUpperCase and m = m2 and s = s1 and w = w])
    case missing
    from handleServerRegister_missing [where toUpperCase = toUpperCase and ws = w and s = s1, OF this] missing assms(3,5) hp
    show ?thesis by auto
  next
    case (refresh x2)
    note req = handleServerRegister_refresh [where toUpperCase = toUpperCase, OF refresh(1) refl refresh(2,3)]
    show ?thesis
    proof (cases "toUpperCase x2 = rid")
      case True
      with req refresh assms(4,5) hp sv show ?thesis
        by (cases "iceServers m2") simp_all
    next
      case False
      with inj sv have "servers s1 (toUpperCase x2) \<noteq> Some r" by auto
      with req False refresh(1) assms(5) hp show ?thesis
        by (auto split: option.splits)
    qed
  next
    case (install x2)
    note ieq = handleServerRegister_install [where toUpperCase = toUpperCase, OF install(1) refl install(2,3)]
    from install have nref: "\<not> ?refresh" by auto
    from lt nr have ne: "r \<noteq> nextRef s1" by simp
    have "heap ?s2 r = heap s1 r" using ne by (simp add: ieq)
    with assms(5) hp have "Option.bind (heap ?s2 r) sd_iceServers = sd_iceServers sd" by simp
    with nref show ?thesis by (simp only: if_not_P if_False)
  qed
  have fr: "pendingClients ?s2 = pendingClients s1" "timers ?s2 = timers s1"
    using handleServerRegister_frame [of toUpperCase w m2 s1] by simp_all
  have c4: "snd (timerFires t ?s2) =
               [Send c (connectedMsg rid sid (if ?refresh then iceServers m2 else sd_iceServers sd))]"
    using c1 c2 hr fr
    by (simp add: timerFires_def fallback_def connectedMsg_def)
  show ?thesis
    using c1 c2 c3 c4 unfolding s1_def sid_def t_def Let_def by blast
qed

text \<open>
  Client 13 asks for Aaa; the timeout then fires at once, after a refresh from the
  registered connection 11, or after a replacement by connection 14.
\<close>

theorem fallback_iceServers_witness:
  "(let s1 = fst (handleConnectRequest asciiUpper 13 (connectMsg ''Aaa'') 0 rndA exRegistered) in
      snd (timerFires (nextTimer exRegistered) s1) =
        [Send 13 (connectedMsg ''AAA'' sidA (Some [stun1, turn2]))]
    \<and> snd (timerFires (nextTimer exRegistered)
            (fst (handleServerRegister asciiUpper 11 (registerMsg ''aaa'' [turn3]) s1))) =
        [Send 13 (connectedMsg ''AAA'' sidA (Some [turn3]))]
    \<and> snd (timerFires (nextTimer exRegistered)
            (fst (handleServerRegister asciiUpper 14 (registerMsg ''aaa'' [turn3]) s1))) =
        [Send 13 (connectedMsg ''AAA'' sidA (Some [stun1, turn2]))])"
proof -
  have h: "remoteId (connectMsg ''Aaa'') = Some ''Aaa''" "asciiUpper ''Aaa'' = ''AAA''" "''AAA'' \<noteq> []"
    "servers exRegistered ''AAA'' = Some 0"
    "heap exRegistered 0 = Some \<lparr> sd_ws = 11, sd_iceServers = Some [stun1, turn2] \<rparr>"
    "wellFormed exRegistered"
    by (simp_all add: connectMsg_def emptyMessage_def asciiUpper_aaa exRegistered_facts
        wellFormed_examples)
  let ?s1 = "fst (handleConnectRequest asciiUpper 13 (connectMsg ''Aaa'') 0 rndA exRegistered)"
  have m: "wsMetadata ?s1 11 = Some \<lparr> md_type = Server, md_id = ''AAA'' \<rparr>"
    "wsMetadata ?s1 14 = None"
    by (simp_all add: handleConnectRequest_success [where toUpperCase = asciiUpper, OF h(1-5)] exRegistered_facts)
  show ?thesis
    using fallback_iceServers [where toUpperCase = asciiUpper, OF h, of 13 0 rndA 11 "registerMsg ''aaa'' [turn3]"]
      fallback_iceServers [where toUpperCase = asciiUpper, OF h, of 13 0 rndA 14 "registerMsg ''aaa'' [turn3]"] m
    by (simp add: Let_def registerMsg_fields asciiUpper_aaa generateSessionId_rndA)
qed

text \<open>
  Claim C2 as stated fails: the registration of AAA holds two ICE servers when client 13
  sends its \<open>connect-request\<close>; connection 11 then refreshes its registration with one
  other ICE server, and the fallback sends the client that one.
\<close>

theorem fallback_iceServers_counterexample:
  "map_option sd_iceServers (getServer exRegistered ''AAA'') = Some (Some [stun1, turn2])
   \<and> snd (run asciiUpper [Message 13 (connectMsg ''Aaa'') 0 rndA,
               Message 11 (registerMsg ''aaa'' [turn3]) 0 rndA,
               TimerFires 1] exRegistered) =
       [Send 11 ((emptyMessage ''client-connected'')\<lparr> sessionId := Some sidA \<rparr>),
        Send 11 ((emptyMessage ''registered'')\<lparr> remoteId := Some ''AAA'' \<rparr>),
        Send 13 (connectedMsg ''AAA'' sidA (Some [turn3]))]
   \<and> [turn3] \<noteq> [stun1, turn2]"
  by (simp add: exRegistered_def ex_defs connectedMsg_def)

section \<open>Registration: replacement and refresh\<close>

text \<open>
  Claim C8, as the code has it. Let a \<open>register-server\<close> carry a remote id that is
  \<open>rid\<close> after \<open>toUpperCase\<close>, in a well-formed state.
  \<^item> If \<open>rid\<close> is registered by another connection, the old connection is closed with
    code 4000 and reason
    \<open>Replaced by new connection\<close>, its identity entry is removed, the registry maps \<open>rid\<close>
    to a registration of the caller with the \<open>iceServers\<close> of the message, the caller
    gets the identity \<open>server\<close> for \<open>rid\<close> and is sent \<open>registered\<close>.
  \<^item> If the caller's identity is \<open>server\<close> for \<open>rid\<close> (its last registration was for
    \<open>rid\<close>), it is sent \<open>registered\<close> and nothing changes but the \<open>iceServers\<close> of the
    registration, which become those of the message when it provides them; the
    registration stays the caller's, and handling the same message again gives the same
    state and reply.
  \<^item> If the caller is the connection of the registration of \<open>rid\<close> but its identity is
    not \<open>server\<close> for \<open>rid\<close> (it has registered another remote id since), the
    registration is not refreshed but installed anew: the registry maps \<open>rid\<close> to a
    registration of the caller with the \<open>iceServers\<close> of the message, also when the
    message has none, the caller gets the identity \<open>server\<close> for \<open>rid\<close> and is sent
    \<open>registered\<close>; no connection is closed and no session changes.
\<close>

theorem register_replace_or_refresh:
  assumes "remoteId message = Some x" and "toUpperCase x = rid" and "rid \<noteq> []"
    and "wellFormed s"
  shows "(getServer s rid = Some old \<and> sd_ws old \<noteq> ws \<longrightarrow>
          (let s1 = fst (handleServerRegister toUpperCase ws message s) in
             snd (handleServerRegister toUpperCase ws message s) =
               [Close (sd_ws old) 4000 ''Replaced by new connection'',
                Send ws ((emptyMessage ''registered'')\<lparr> remoteId := Some rid \<rparr>)]
           \<and> wsMetadata s1 (sd_ws old) = None
           \<and> getServer s1 rid = Some \<lparr> sd_ws = ws, sd_iceServers = iceServers message \<rparr>
           \<and> wsMetadata s1 ws = Some \<lparr> md_type = Server, md_id = rid \<rparr>))
       \<and> (wsMetadata s ws = Some \<lparr> md_type = Server, md_id = rid \<rparr> \<longrightarrow>
          (let s1 = fst (handleServerRegister toUpperCase ws message s) in
             snd (handleServerRegister toUpperCase ws message s) =
               [Send ws ((emptyMessage ''registered'')\<lparr> remoteId := Some rid \<rparr>)]
           \<and> servers s1 = servers s \<and> wsMetadata s1 = wsMetadata s
           \<and> clients s1 = clients s \<and> pendingClients s1 = pendingClients s
           \<and> getServer s1 rid =
               map_option (\<lambda>sd. case iceServers message of
                                  Some ice \<Rightarrow> sd\<lparr> sd_iceServers := Some ice \<rparr>
                                | None \<Rightarrow> sd) (getServer s rid)
           \<and> map_option sd_ws (getServer s1 rid) = Some ws
           \<and> handleServerRegister toUpperCase ws message s1 =
               handleServerRegister toUpperCase ws message s))
       \<and> (getServer s rid = Some old \<and> sd_ws old = ws
            \<and> wsMetadata s ws \<noteq> Some \<lparr> md_type = Server, md_id = rid \<rparr> \<longrightarrow>
          (let s1 = fst (handleServerRegister toUpperCase ws message s) in
             snd (handleServerRegister toUpperCase ws message s) =
               [Send ws ((emptyMessage ''registered'')\<lparr> remoteId := Some rid \<rparr>)]
           \<and> getServer s1 rid = Some \<lparr> sd_ws = ws, sd_iceServers = iceServers message \<rparr>
           \<and> wsMetadata s1 ws = Some \<lparr> md_type = Server, md_id = rid \<rparr>
           \<and> clients s1 = clients s \<and> pendingClients s1 = pendingClients s))"
proof (intro conjI impI)
  assume a: "getServer s rid = Some old \<and> sd_ws old \<noteq> ws"
  then have nh: "wsMetadata s ws \<noteq> Some \<lparr> md_type = Server, md_id = rid \<rparr>"
    using wellFormed_owner [OF assms(4)] by blast
  from handleServerRegister_install [where toUpperCase = toUpperCase, OF assms(1-3) nh] a
  show "let s1 = fst (handleServerRegister toUpperCase ws message s) in
             snd (handleServerRegister toUpperCase ws message s) =
               [Close (sd_ws old) 4000 ''Replaced by new connection'',
                Send ws ((emptyMessage ''registered'')\<lparr> remoteId := Some rid \<rparr>)]
           \<and> wsMetadata s1 (sd_ws old) = None
           \<and> getServer s1 rid = Some \<lparr> sd_ws = ws, sd_iceServers = iceServers message \<rparr>
           \<and> wsMetadata s1 ws = Some \<lparr> md_type = Server, md_id = rid \<rparr>"
    by (simp add: Let_def getServer_def)
next
  assume h: "wsMetadata s ws = Some \<lparr> md_type = Server, md_id = rid \<rparr>"
  with assms(4) have o: "map_option sd_ws (getServer s rid) = Some ws"
    unfolding wellFormed_def by fastforce
  then obtain r e where r: "servers s rid = Some r" and e: "heap s r = Some e" and w: "sd_ws e = ws"
    by (auto simp: getServer_def bind_eq_Some_conv)
  note eq = handleServerRegister_refresh [where toUpperCase = toUpperCase, OF assms(1-3) h]
  show "let s1 = fst (handleServerRegister toUpperCase ws message s) in
             snd (handleServerRegister toUpperCase ws message s) =
               [Send ws ((emptyMessage ''registered'')\<lparr> remoteId := Some rid \<rparr>)]
           \<and> servers s1 = servers s \<and> wsMetadata s1 = wsMetadata s
           \<and> clients s1 = clients s \<and> pendingClients s1 = pendingClients s
           \<and> getServer s1 rid =
               map_option (\<lambda>sd. case iceServers message of
                                  Some ice \<Rightarrow> sd\<lparr> sd_iceServers := Some ice \<rparr>
                                | None \<Rightarrow> sd) (getServer s rid)
           \<and> map_option sd_ws (getServer s1 rid) = Some ws
           \<and> handleServerRegister toUpperCase ws message s1 =
               handleServerRegister toUpperCase ws message s"
  proof (cases "iceServers message")
    case None
    with eq r e w show ?thesis by (simp add: Let_def getServer_def)
  next
    case (Some ice)
    let ?s1 = "s\<lparr> heap := (heap s)(r \<mapsto> e\<lparr> sd_iceServers := Some ice \<rparr>) \<rparr>"
    from eq r e Some have s1: "handleServerRegister toUpperCase ws message s =
        (?s1, [Send ws ((emptyMessage ''registered'')\<lparr> remoteId := Some rid \<rparr>)])"
      by simp
    have h1: "wsMetadata ?s1 ws = Some \<lparr> md_type = Server, md_id = rid \<rparr>" using h by simp
    from handleServerRegister_refresh [where toUpperCase = toUpperCase, OF assms(1-3) h1] r Some
    have again: "handleServerRegister toUpperCase ws message ?s1 =
        handleServerRegister toUpperCase ws message s"
      by (simp add: s1)
    from s1 r e w h Some again show ?thesis
      by (simp add: Let_def getServer_def)
  qed
next
  assume a: "getServer s rid = Some old \<and> sd_ws old = ws
            \<and> wsMetadata s ws \<noteq> Some \<lparr> md_type = Server, md_id = rid \<rparr>"
  then have nh: "wsMetadata s ws \<noteq> Some \<lparr> md_type = Server, md_id = rid \<rparr>" by simp
  from handleServerRegister_install [where toUpperCase = toUpperCase, OF assms(1-3) nh] a
  show "let s1 = fst (handleServerRegister toUpperCase ws message s) in
             snd (handleServerRegister toUpperCase ws message s) =
               [Send ws ((emptyMessage ''registered'')\<lparr> remoteId := Some rid \<rparr>)]
           \<and> getServer s1 rid = Some \<lparr> sd_ws = ws, sd_iceServers = iceServers message \<rparr>
           \<and> wsMetadata s1 ws = Some \<lparr> md_type = Server, md_id = rid \<rparr>
           \<and> clients s1 = clients s \<and> pendingClients s1 = pendingClients s"
    by (simp add: Let_def getServer_def)
qed

text \<open>
  In \<open>exActive\<close> connection 14 replaces connection 11 as AAA, and connection 11 refreshes
  its own registration; in \<open>exTwoIds\<close> connection 21, whose identity is BBB, registers
  aaa again.
\<close>

theorem register_replace_or_refresh_witness:
  "(let s1 = fst (handleServerRegister asciiUpper 14 (registerMsg ''aaa'' [turn3]) exActive) in
      snd (handleServerRegister asciiUpper 14 (registerMsg ''aaa'' [turn3]) exActive) =
        [Close 11 4000 ''Replaced by new connection'',
         Send 14 ((emptyMessage ''registered'')\<lparr> remoteId := Some ''AAA'' \<rparr>)]
      \<and> wsMetadata s1 11 = None
      \<and> getServer s1 ''AAA'' = Some \<lparr> sd_ws = 14, sd_iceServers = Some [turn3] \<rparr>
      \<and> wsMetadata s1 14 = Some \<lparr> md_type = Server, md_id = ''AAA'' \<rparr>)
   \<and> (let s1 = fst (handleServerRegister asciiUpper 11 (registerMsg ''aaa'' [turn3]) exActive) in
      snd (handleServerRegister asciiUpper 11 (registerMsg ''aaa'' [turn3]) exActive) =
        [Send 11 ((emptyMessage ''registered'')\<lparr> remoteId := Some ''AAA'' \<rparr>)]
      \<and> getServer s1 ''AAA'' = Some \<lparr> sd_ws = 11, sd_iceServers = Some [turn3] \<rparr>
      \<and> handleServerRegister asciiUpper 11 (registerMsg ''aaa'' [turn3]) s1 =
          handleServerRegister asciiUpper 11 (registerMsg ''aaa'' [turn3]) exActive)
   \<and> (let s1 = fst (handleServerRegister asciiUpper 21 (registerMsg ''aaa'' [turn3]) exTwoIds) in
      snd (handleServerRegister asciiUpper 21 (registerMsg ''aaa'' [turn3]) exTwoIds) =
        [Send 21 ((emptyMessage ''registered'')\<lparr> remoteId := Some ''AAA'' \<rparr>)]
      \<and> getServer s1 ''AAA'' = Some \<lparr> sd_ws = 21, sd_iceServers = Some [turn3] \<rparr>
      \<and> wsMetadata s1 21 = Some \<lparr> md_type = Server, md_id = ''AAA'' \<rparr>)"
proof -
  have h: "remoteId (registerMsg ''aaa'' [turn3]) = Some ''aaa''" "asciiUpper ''aaa'' = ''AAA''"
    "''AAA'' \<noteq> []" "wellFormed exActive"
    by (simp_all add: registerMsg_fields asciiUpper_aaa wellFormed_examples)
  have k: "remoteId (registerMsg ''aaa'' [turn3]) = Some ''aaa''" "asciiUpper ''aaa'' = ''AAA''"
    "''AAA'' \<noteq> []" "wellFormed exTwoIds"
    by (simp_all add: registerMsg_fields asciiUpper_aaa wellFormed_exTwoIds)
  have g: "getServer exActive ''AAA'' = Some \<lparr> sd_ws = 11, sd_iceServers = Some [stun1, turn2] \<rparr>"
    by (simp add: getServer_def exActive_facts)
  have g2: "getServer exTwoIds ''AAA'' = Some \<lparr> sd_ws = 21, sd_iceServers = Some [stun1] \<rparr>"
    by (simp add: getServer_def exTwoIds_facts)
  show ?thesis
    using register_replace_or_refresh [where toUpperCase = asciiUpper, OF h,
        of "\<lparr> sd_ws = 11, sd_iceServers = Some [stun1, turn2] \<rparr>" 14]
      register_replace_or_refresh [where toUpperCase = asciiUpper, OF h,
        of "\<lparr> sd_ws = 11, sd_iceServers = Some [stun1, turn2] \<rparr>" 11]
      register_replace_or_refresh [where toUpperCase = asciiUpper, OF k,
        of "\<lparr> sd_ws = 21, sd_iceServers = Some [stun1] \<rparr>" 21]
      g g2 exActive_facts(3) exTwoIds_facts(3)
    by (simp add: Let_def registerMsg_fields)
qed

text \<open>
  Claim C8 as stated fails: connection 21 holds the registration of AAA with one ICE
  server, its identity is BBB, and its re-registration of aaa without \<open>iceServers\<close> is
  answered \<open>registered\<close> and erases the stored list.
\<close>

theorem register_same_connection_counterexample:
  "map_option sd_ws (getServer exTwoIds ''AAA'') = Some 21
   \<and> map_option sd_iceServers (getServer exTwoIds ''AAA'') = Some (Some [stun1])
   \<and> iceServers (registerOnlyMsg ''aaa'') = None
   \<and> snd (handleServerRegister asciiUpper 21 (registerOnlyMsg ''aaa'') exTwoIds) =
       [Send 21 ((emptyMessage ''registered'')\<lparr> remoteId := Some ''AAA'' \<rparr>)]
   \<and> map_option sd_iceServers
        (getServer (fst (handleServerRegister asciiUpper 21 (registerOnlyMsg ''aaa'') exTwoIds))
           ''AAA'') = Some None"
  by (simp add: exTwoIds_def registerOnlyMsg_def ex_defs)

text \<open>
  Claim C4, as the code has it. When another connection takes over a remote id in a
  well-formed state, the evicted connection has lost its identity entry, so its disconnect handling changes
  nothing and notifies nobody. The active sessions are untouched by the replacement:
  every session bound to the remote id stays active and bound to it, and the
  remote id now resolves to the new registration.
\<close>

theorem replaced_server_sessions_survive:
  assumes "remoteId message = Some x" and "toUpperCase x = rid" and "rid \<noteq> []"
    and "wellFormed s" and "getServer s rid = Some old" and "sd_ws old \<noteq> ws"
  shows "(let s1 = fst (handleServerRegister toUpperCase ws message s) in
            handleDisconnect (sd_ws old) s1 = (s1, [])
          \<and> clients s1 = clients s
          \<and> getServer s1 rid = Some \<lparr> sd_ws = ws, sd_iceServers = iceServers message \<rparr>)"
proof -
  have nh: "wsMetadata s ws \<noteq> Some \<lparr> md_type = Server, md_id = rid \<rparr>"
    by (rule wellFormed_owner [OF assms(4-6)])
  from handleServerRegister_install [where toUpperCase = toUpperCase, OF assms(1-3) nh] assms(5,6)
  show ?thesis
    by (simp add: Let_def getServer_def handleDisconnect_def)
qed

text \<open>In \<open>exActive\<close>, connection 14 replaces connection 11, which is then disconnected.\<close>

theorem replaced_server_sessions_survive_witness:
  "(let s1 = fst (handleServerRegister asciiUpper 14 (registerMsg ''aaa'' [turn3]) exActive) in
            handleDisconnect 11 s1 = (s1, [])
          \<and> clients s1 = [(sidA, \<lparr> cd_ws = 13, cd_remoteId = ''AAA'' \<rparr>)]
          \<and> getServer s1 ''AAA'' = Some \<lparr> sd_ws = 14, sd_iceServers = Some [turn3] \<rparr>)"
proof -
  have h: "remoteId (registerMsg ''aaa'' [turn3]) = Some ''aaa''" "asciiUpper ''aaa'' = ''AAA''"
    "''AAA'' \<noteq> []" "wellFormed exActive"
    "getServer exActive ''AAA'' = Some \<lparr> sd_ws = 11, sd_iceServers = Some [stun1, turn2] \<rparr>"
    "sd_ws \<lparr> sd_ws = 11 :: nat, sd_iceServers = Some [stun1, turn2] \<rparr> \<noteq> 14"
    by (simp_all add: registerMsg_fields asciiUpper_aaa getServer_def exActive_facts
        wellFormed_examples)
  show ?thesis
    using replaced_server_sessions_survive [where toUpperCase = asciiUpper, OF h]
    by (simp add: Let_def registerMsg_fields exActive_facts)
qed

text \<open>
  Claim C4 as stated fails: the session of client 13 was created under the registration
  of connection 11; after connection 14 has replaced it and connection 11 has been
  disconnected, the session is still active and bound to AAA.
\<close>

theorem replaced_server_session_counterexample:
  "map_of (clients exActive) sidA = Some \<lparr> cd_ws = 13, cd_remoteId = ''AAA'' \<rparr>
   \<and> map_option sd_ws (getServer exActive ''AAA'') = Some 11
   \<and> map_option sd_ws (getServer exReplaced ''AAA'') = Some 14
   \<and> wsMetadata exReplaced 11 = None
   \<and> map_of (clients exReplaced) sidA = Some \<lparr> cd_ws = 13, cd_remoteId = ''AAA'' \<rparr>"
  by (simp add: exReplaced_def exActive_def ex_defs sidA_def)

section \<open>Session ids\<close>

lemma keys_delete: "fst ` set (AList.delete k al) = fst ` set al - {k}"
proof -
  have "set (map fst (AList.delete k al)) = set (map fst al) - {k}"
    by (simp add: delete_keys)
  then show ?thesis by simp
qed

lemma kept_notifyClients: "set (fst (notifyClients rid cs)) \<subseteq> set cs"
  by (induction cs) (auto simp: split_def Let_def split: if_splits)

lemma keys_notifyClients: "fst ` set (fst (notifyClients rid cs)) \<subseteq> fst ` set cs"
  by (rule image_mono) (rule kept_notifyClients)

lemma kept_cleanPending: "set (fst (cleanPending rid ps tm)) \<subseteq> set ps"
proof (induction ps arbitrary: tm)
  case Nil
  show ?case by simp
next
  case (Cons p ps)
  obtain sid pending where p: "p = (sid, pending)" by (cases p)
  show ?case
  proof (cases "pc_remoteId pending = rid")
    case True
    with p Cons.IH [of "clearTimeout (pc_timeout pending) tm"] show ?thesis
      by (auto simp: split_def Let_def)
  next
    case False
    with p Cons.IH [of tm] show ?thesis by (auto simp: split_def Let_def)
  qed
qed

lemma keys_cleanPending: "fst ` set (fst (cleanPending rid ps tm)) \<subseteq> fst ` set ps"
  by (rule image_mono) (rule kept_cleanPending)

lemma disjoint_insert_subset:
  "A \<inter> C = {} \<Longrightarrow> x \<notin> C \<Longrightarrow> B \<subseteq> insert x A \<Longrightarrow> B \<inter> C = {}"
  by blast

lemma disjoint_subsets:
  "A \<inter> C = {} \<Longrightarrow> B \<subseteq> A \<Longrightarrow> D \<subseteq> C \<Longrightarrow> B \<inter> D = {}"
  by blast

lemma disjoint_moved:
  "A \<inter> C = {} \<Longrightarrow> (A - {x}) \<inter> ({x} \<union> C) = {}"
  by blast

lemma disjoint_promote:
  assumes "fst ` set ps \<inter> fst ` set cs = {}"
  shows "fst ` set (AList.delete sid ps) \<inter> fst ` set (AList.update sid v cs) = {}"
  using disjoint_moved [OF assms, of sid] by (simp only: keys_delete dom_update)

lemma disjoint_handleServerRegister:
  "sessionIdsDisjoint s \<Longrightarrow> sessionIdsDisjoint (fst (handleServerRegister toUpperCase ws m s))"
  using handleServerRegister_frame [of toUpperCase ws m s] by (simp add: sessionIdsDisjoint_def)

lemma handleConnectRequest_keys:
  "clients (fst (handleConnectRequest toUpperCase ws m now rnd s)) = clients s
   \<and> fst ` set (pendingClients (fst (handleConnectRequest toUpperCase ws m now rnd s)))
       \<subseteq> insert (generateSessionId rnd) (fst ` set (pendingClients s))"
proof (cases "remoteId m")
  case None
  then show ?thesis by (auto simp: handleConnectRequest_def)
next
  case (Some x)
  show ?thesis
  proof (cases "toUpperCase x = []")
    case True
    with Some show ?thesis by (auto simp: handleConnectRequest_def)
  next
    case False
    show ?thesis
    proof (cases "Option.bind (servers s (toUpperCase x)) (\<lambda>r. map_option (Pair r) (heap s r))")
      case None
      show ?thesis
      proof (cases "wsClientIp s ws")
        case None
        with \<open>remoteId m = Some x\<close> False
          \<open>Option.bind (servers s (toUpperCase x)) (\<lambda>r. map_option (Pair r) (heap s r)) = None\<close>
        show ?thesis by (auto simp: handleConnectRequest_def Let_def)
      next
        case (Some ip)
        with \<open>remoteId m = Some x\<close> False
          \<open>Option.bind (servers s (toUpperCase x)) (\<lambda>r. map_option (Pair r) (heap s r)) = None\<close>
        show ?thesis
          by (cases "ip = []"; cases "fst (recordFailedLookup ip now (rateLimiter s))")
            (auto simp: handleConnectRequest_def Let_def split_def)
      qed
    next
      case (Some rsd)
      obtain r sd where rsd: "rsd = (r, sd)" by (cases rsd)
      from Some rsd have "servers s (toUpperCase x) = Some r" "heap s r = Some sd"
        by (auto simp: bind_eq_Some_conv)
      from handleConnectRequest_success
          [where toUpperCase = toUpperCase, OF \<open>remoteId m = Some x\<close> refl False this,
            of ws now rnd]
      show ?thesis by (simp add: dom_update)
    qed
  qed
qed

lemma disjoint_handleConnectRequest:
  assumes "sessionIdsDisjoint s" and "generateSessionId rnd \<notin> fst ` set (clients s)"
  shows "sessionIdsDisjoint (fst (handleConnectRequest toUpperCase ws m now rnd s))"
proof -
  from handleConnectRequest_keys [of toUpperCase ws m now rnd s]
  have c: "clients (fst (handleConnectRequest toUpperCase ws m now rnd s)) = clients s"
    and k: "fst ` set (pendingClients (fst (handleConnectRequest toUpperCase ws m now rnd s)))
       \<subseteq> insert (generateSessionId rnd) (fst ` set (pendingClients s))"
    by simp_all
  from assms(1) have d: "fst ` set (pendingClients s) \<inter> fst ` set (clients s) = {}"
    by (simp add: sessionIdsDisjoint_def)
  from disjoint_insert_subset [OF d assms(2) k] c show ?thesis
    by (simp add: sessionIdsDisjoint_def)
qed

lemma disjoint_handleSessionReady:
  assumes "sessionIdsDisjoint s"
  shows "sessionIdsDisjoint (fst (handleSessionReady ws m s))"
proof (cases "sessionId m")
  case None
  with assms show ?thesis by (simp add: handleSessionReady_def)
next
  case (Some sid)
  note sid = this
  show ?thesis
  proof (cases "sid = [] \<or> map_of (pendingClients s) sid = None")
    case True
    with assms sid show ?thesis by (auto simp: handleSessionReady_def)
  next
    case False
    then obtain pending where p: "map_of (pendingClients s) sid = Some pending" and ne: "sid \<noteq> []"
      by auto
    show ?thesis
    proof (cases "wsMetadata s ws")
      case None
      with assms sid p ne show ?thesis by (simp add: handleSessionReady_def)
    next
      case (Some md)
      show ?thesis
      proof (cases "md_type md = Server")
        case True
        from assms have "fst ` set (pendingClients s) \<inter> fst ` set (clients s) = {}"
          by (simp add: sessionIdsDisjoint_def)
        from disjoint_promote [OF this] sid p ne Some True show ?thesis
          by (simp add: handleSessionReady_def Let_def sessionIdsDisjoint_def)
      next
        case False
        with assms sid p ne Some show ?thesis by (simp add: handleSessionReady_def)
      qed
    qed
  qed
qed

lemma disjoint_fallback:
  assumes "sessionIdsDisjoint s"
  shows "sessionIdsDisjoint (fst (fallback cl s))"
proof (cases "map_of (pendingClients s) (fb_sessionId cl)")
  case None
  with assms show ?thesis by (simp add: fallback_def)
next
  case (Some pending)
  from assms have "fst ` set (pendingClients s) \<inter> fst ` set (clients s) = {}"
    by (simp add: sessionIdsDisjoint_def)
  from disjoint_promote [OF this] Some show ?thesis
    by (simp add: fallback_def sessionIdsDisjoint_def)
qed

lemma disjoint_timerFires:
  "sessionIdsDisjoint s \<Longrightarrow> sessionIdsDisjoint (fst (timerFires t s))"
proof (cases "timers s t")
  case None
  then show "sessionIdsDisjoint s \<Longrightarrow> ?thesis" by (simp add: timerFires_def)
next
  case (Some cl)
  assume "sessionIdsDisjoint s"
  then have "sessionIdsDisjoint (s\<lparr> timers := (timers s)(t := None) \<rparr>)"
    by (simp add: sessionIdsDisjoint_def)
  from disjoint_fallback [OF this, of cl] Some show ?thesis by (simp add: timerFires_def)
qed

lemma handleDisconnect_keys:
  "fst ` set (clients (fst (handleDisconnect ws s))) \<subseteq> fst ` set (clients s)
   \<and> fst ` set (pendingClients (fst (handleDisconnect ws s))) \<subseteq> fst ` set (pendingClients s)"
proof (cases "wsMetadata s ws")
  case None
  then show ?thesis by (simp add: handleDisconnect_def)
next
  case (Some md)
  show ?thesis
  proof (cases "md_type md")
    case Server
    show ?thesis
    proof (cases "case getServer s (md_id md) of Some serverData \<Rightarrow> sd_ws serverData = ws | None \<Rightarrow> False")
      case True
      with Some Server show ?thesis
        using keys_notifyClients [of "md_id md" "clients s"]
          keys_cleanPending [of "md_id md" "pendingClients s" "timers s"]
        by (simp add: handleDisconnect_def Let_def split_def)
    next
      case False
      with Some Server show ?thesis by (simp add: handleDisconnect_def Let_def)
    qed
  next
    case Client
    have a: "fst ` set (pendingClients
               (case map_of (pendingClients s) (md_id md) of
                  Some pending \<Rightarrow>
                    s\<lparr> timers := clearTimeout (pc_timeout pending) (timers s),
                        pendingClients := AList.delete (md_id md) (pendingClients s) \<rparr>
                | None \<Rightarrow> s)) \<subseteq> fst ` set (pendingClients s)"
      and b: "clients
               (case map_of (pendingClients s) (md_id md) of
                  Some pending \<Rightarrow>
                    s\<lparr> timers := clearTimeout (pc_timeout pending) (timers s),
                        pendingClients := AList.delete (md_id md) (pendingClients s) \<rparr>
                | None \<Rightarrow> s) = clients s"
      by (auto simp: keys_delete split: option.splits)
    from Some Client a b show ?thesis
      by (simp add: handleDisconnect_def Let_def split_def keys_delete split: option.splits)
  qed
qed

lemma disjoint_handleDisconnect:
  assumes "sessionIdsDisjoint s"
  shows "sessionIdsDisjoint (fst (handleDisconnect ws s))"
proof -
  from handleDisconnect_keys [of ws s]
  have c: "fst ` set (clients (fst (handleDisconnect ws s))) \<subseteq> fst ` set (clients s)"
    and k: "fst ` set (pendingClients (fst (handleDisconnect ws s))) \<subseteq> fst ` set (pendingClients s)"
    by simp_all
  from assms have d: "fst ` set (pendingClients s) \<inter> fst ` set (clients s) = {}"
    by (simp add: sessionIdsDisjoint_def)
  from disjoint_subsets [OF d k c] show ?thesis by (simp add: sessionIdsDisjoint_def)
qed

lemma checkRateLimit_frame:
  "clients (fst (snd (checkRateLimit ws now s))) = clients s
   \<and> pendingClients (fst (snd (checkRateLimit ws now s))) = pendingClients s"
  by (simp add: checkRateLimit_def Let_def split_def split: option.splits)

lemma disjoint_dispatch:
  assumes "sessionIdsDisjoint s"
    and "msg_type m = ''connect-request'' \<longrightarrow> generateSessionId rnd \<notin> fst ` set (clients s)"
  shows "sessionIdsDisjoint (fst (dispatch toUpperCase ws m now rnd s))"
  using assms
  by (simp add: dispatch_def disjoint_handleServerRegister disjoint_handleConnectRequest
      disjoint_handleSessionReady forwardSignalingMessage_state)

lemma disjoint_handleMessage:
  assumes "sessionIdsDisjoint s"
    and "msg_type m = ''connect-request'' \<longrightarrow> generateSessionId rnd \<notin> fst ` set (clients s)"
  shows "sessionIdsDisjoint (fst (handleMessage toUpperCase ws m now rnd s))"
proof -
  let ?s1 = "fst (snd (checkRateLimit ws now s))"
  have d1: "sessionIdsDisjoint ?s1"
    and f1: "msg_type m = ''connect-request'' \<longrightarrow> generateSessionId rnd \<notin> fst ` set (clients ?s1)"
    using assms checkRateLimit_frame [of ws now s] by (simp_all add: sessionIdsDisjoint_def)
  show ?thesis
    using assms d1 disjoint_dispatch [OF d1 f1, of toUpperCase ws now] disjoint_dispatch [OF assms, of toUpperCase ws now]
    by (simp add: handleMessage_def split_def Let_def)
qed

lemma disjoint_step:
  assumes "sessionIdsDisjoint s" and "freshDraw e s"
  shows "sessionIdsDisjoint (fst (step toUpperCase e s))"
proof (cases e)
  case (Message ws m now rnd)
  with assms show ?thesis by (simp add: disjoint_handleMessage)
next
  case (Disconnect ws)
  with assms show ?thesis by (simp add: disjoint_handleDisconnect)
next
  case (TimerFires t)
  with assms show ?thesis by (simp add: disjoint_timerFires)
next
  case (SetClientIp ws ip)
  with assms show ?thesis by (simp add: setClientIp_def sessionIdsDisjoint_def)
next
  case (Cleanup now)
  with assms show ?thesis by (simp add: sessionIdsDisjoint_def)
qed


lemma disjoint_run:
  assumes "sessionIdsDisjoint s" and "freshRun toUpperCase es s"
  shows "sessionIdsDisjoint (fst (run toUpperCase es s))"
  using assms
proof (induction es arbitrary: s)
  case Nil
  then show ?case by simp
next
  case (Cons e es)
  from Cons.prems have d: "sessionIdsDisjoint (fst (step toUpperCase e s))"
    and f: "freshRun toUpperCase es (fst (step toUpperCase e s))"
    by (simp_all add: disjoint_step)
  from Cons.IH [OF d f] show ?case by (simp add: split_def Let_def)
qed

text \<open>
  Claim C9, as the code has it. \<open>generateSessionId\<close> does not look at the two maps. If
  no session id is a key of both maps, and every id drawn for a \<open>connect-request\<close>
  during a run of events is fresh when it is drawn, then after every prefix of the run
  no session id is a key of both maps.
\<close>

theorem sessionIds_disjoint_when_fresh:
  assumes "sessionIdsDisjoint s" and "freshRun toUpperCase es s"
  shows "sessionIdsDisjoint (fst (run toUpperCase (take n es) s))"
  using assms
proof (induction es arbitrary: s n)
  case Nil
  then show ?case by simp
next
  case (Cons e es)
  show ?case
  proof (cases n)
    case 0
    with Cons.prems show ?thesis by simp
  next
    case (Suc k)
    from Cons.prems have d: "sessionIdsDisjoint (fst (step toUpperCase e s))" and f: "freshRun toUpperCase es (fst (step toUpperCase e s))"
      by (simp_all add: disjoint_step)
    from Cons.IH [OF d f, of k] Suc show ?thesis by (simp add: split_def Let_def)
  qed
qed

text \<open>A run with two different draws, after four events and at its end.\<close>

theorem sessionIds_disjoint_when_fresh_witness:
  "sessionIdsDisjoint (fst (run asciiUpper (take 4 exFreshEvents) exCore))
   \<and> sessionIdsDisjoint (fst (run asciiUpper exFreshEvents exCore))"
proof -
  have h: "sessionIdsDisjoint (exCore :: nat SignalingCore)" "freshRun asciiUpper exFreshEvents exCore"
    by (simp_all add: sessionIdsDisjoint_def exFreshEvents_def ex_defs generateSessionId_rndB
        sidA_def sidB_def)
  show ?thesis
    using sessionIds_disjoint_when_fresh [OF h, of 4] sessionIds_disjoint_when_fresh [OF h, of 6]
    by (simp add: exFreshEvents_def)
qed

text \<open>
  Claim C9 as stated fails: when the generator draws the id of the active session of
  client 13 again for client 15, the new pending session reuses it and the id is a
  key of both maps.
\<close>

theorem sessionId_reuse_counterexample:
  "map_of (clients exActive) sidA = Some \<lparr> cd_ws = 13, cd_remoteId = ''AAA'' \<rparr>
   \<and> map_of (pendingClients exCollision) sidA =
       Some \<lparr> pc_ws = 15, pc_remoteId = ''AAA'', pc_timeout = Some 2 \<rparr>
   \<and> map_of (clients exCollision) sidA = Some \<lparr> cd_ws = 13, cd_remoteId = ''AAA'' \<rparr>
   \<and> \<not> sessionIdsDisjoint exCollision"
  by (simp add: exActive_def exCollision_def ex_defs sidA_def sessionIdsDisjoint_def)

section \<open>Forwarding before promotion\<close>

text \<open>
  Claim C10, as the code has it. Let a state be reached from one in which no session id
  is a key of both maps by a run of events in which every id drawn for a
  \<open>connect-request\<close> is fresh when it is drawn. There, for a connection with the identity
  \<open>client\<close> whose session id is pending, an \<open>offer\<close>, \<open>answer\<close> or \<open>ice-candidate\<close>
  yields exactly one message, the error \<open>Session not found\<close> to the sender: nothing is
  forwarded, and the state is unchanged. \<open>forwardSignalingMessage\<close> does not look at the
  pending sessions: it looks the session id up among the active ones.
\<close>

theorem forward_while_pending:
  assumes "sessionIdsDisjoint s0" and "freshRun toUpperCase es s0"
    and "s = fst (run toUpperCase es s0)"
    and "wsMetadata s ws = Some md" and "md_type md = Client"
    and "map_of (pendingClients s) (md_id md) = Some pending"
    and "msg_type message \<in> {''offer'', ''answer'', ''ice-candidate''}"
  shows "forwardSignalingMessage ws message s = (s, [sendError ws ''Session not found''])
       \<and> dispatch toUpperCase ws message now rnd s = (s, [sendError ws ''Session not found''])"
proof -
  from disjoint_run [OF assms(1,2)] assms(3)
  have d: "fst ` set (pendingClients s) \<inter> fst ` set (clients s) = {}"
    by (simp add: sessionIdsDisjoint_def)
  from assms(6) have "(md_id md, pending) \<in> set (pendingClients s)" by (rule map_of_SomeD)
  then have "md_id md \<in> fst ` set (pendingClients s)" by force
  with d have "md_id md \<notin> fst ` set (clients s)" by blast
  then have n: "map_of (clients s) (md_id md) = None" by (simp add: map_of_eq_None_iff)
  from assms(4,5,7) n show ?thesis
    by (auto simp: forwardSignalingMessage_def dispatch_def)
qed

text \<open>The pending client 13 sends an offer.\<close>

theorem forward_while_pending_witness:
  "forwardSignalingMessage 13 offerMsg exPending = (exPending, [sendError 13 ''Session not found''])
   \<and> dispatch asciiUpper 13 offerMsg 7 rndA exPending =
       (exPending, [sendError 13 ''Session not found''])"
proof -
  have h: "sessionIdsDisjoint (exCore :: nat SignalingCore)"
    "freshRun asciiUpper exPendingEvents exCore"
    "exPending = fst (run asciiUpper exPendingEvents exCore)"
    by (simp_all add: sessionIdsDisjoint_def exPendingEvents_def exPending_def ex_defs)
  have k: "wsMetadata exPending 13 = Some \<lparr> md_type = Client, md_id = sidA \<rparr>"
    "md_type \<lparr> md_type = Client, md_id = sidA \<rparr> = Client"
    "map_of (pendingClients exPending) (md_id \<lparr> md_type = Client, md_id = sidA \<rparr>) =
       Some \<lparr> pc_ws = 13, pc_remoteId = ''AAA'', pc_timeout = Some 1 \<rparr>"
    "msg_type offerMsg \<in> {''offer'', ''answer'', ''ice-candidate''}"
    by (simp_all add: exPending_facts offerMsg_def emptyMessage_def)
  show ?thesis by (rule forward_while_pending [where toUpperCase = asciiUpper, OF h k])
qed

text \<open>
  Claim C10 as stated fails: in \<open>exCollision\<close> the session of client 15 is pending under
  the id of the active session of client 13, and the offer of client 15 is forwarded to
  server 11.
\<close>

theorem forward_while_pending_counterexample:
  "wsMetadata exCollision 15 = Some \<lparr> md_type = Client, md_id = sidA \<rparr>
   \<and> map_of (pendingClients exCollision) sidA =
       Some \<lparr> pc_ws = 15, pc_remoteId = ''AAA'', pc_timeout = Some 2 \<rparr>
   \<and> snd (forwardSignalingMessage 15 offerMsg exCollision) =
       [Send 11 (offerMsg\<lparr> sessionId := Some sidA \<rparr>)]"
  by (simp add: exCollision_facts forwardSignalingMessage_def getServer_def Let_def)

end
